theory Spec2Isabelle
  imports Complex_Main "HOL-Library.Sublist"
begin

section \<open>JavaScript strings\<close>

text \<open>
  Strings are byte lists holding the UTF-8 encoding of the text.
\<close>

text \<open>\<open>String.prototype.split\<close> with a one-character separator.\<close>

fun split_on :: "char \<Rightarrow> string \<Rightarrow> string list" where
  "split_on c [] = [[]]"
| "split_on c (x # xs) =
     (if x = c then [] # split_on c xs
      else (case split_on c xs of [] \<Rightarrow> [[x]] | w # ws \<Rightarrow> (x # w) # ws))"

text \<open>\<open>Array.prototype.join\<close>.\<close>

fun join :: "string \<Rightarrow> string list \<Rightarrow> string" where
  "join sep [] = []"
| "join sep [x] = x"
| "join sep (x # y # ys) = x @ sep @ join sep (y # ys)"

text \<open>
  The white space and line terminator characters of the language, as UTF-8: U+0009 to
  U+000D, U+0020, U+00A0, U+1680, U+2000 to U+200A, U+2028, U+2029, U+202F, U+205F, U+3000
  and U+FEFF.
\<close>

definition white_space :: "string list" where
  "white_space =
     [[CHR 0x09], [CHR 0x0A], [CHR 0x0B], [CHR 0x0C], [CHR 0x0D], [CHR 0x20],
      [CHR 0xC2, CHR 0xA0], [CHR 0xE1, CHR 0x9A, CHR 0x80],
      [CHR 0xE2, CHR 0x80, CHR 0x80], [CHR 0xE2, CHR 0x80, CHR 0x81], [CHR 0xE2, CHR 0x80, CHR 0x82],
      [CHR 0xE2, CHR 0x80, CHR 0x83], [CHR 0xE2, CHR 0x80, CHR 0x84], [CHR 0xE2, CHR 0x80, CHR 0x85],
      [CHR 0xE2, CHR 0x80, CHR 0x86], [CHR 0xE2, CHR 0x80, CHR 0x87], [CHR 0xE2, CHR 0x80, CHR 0x88],
      [CHR 0xE2, CHR 0x80, CHR 0x89], [CHR 0xE2, CHR 0x80, CHR 0x8A],
      [CHR 0xE2, CHR 0x80, CHR 0xA8], [CHR 0xE2, CHR 0x80, CHR 0xA9], [CHR 0xE2, CHR 0x80, CHR 0xAF],
      [CHR 0xE2, CHR 0x81, CHR 0x9F], [CHR 0xE3, CHR 0x80, CHR 0x80], [CHR 0xEF, CHR 0xBB, CHR 0xBF]]"

text \<open>The length of the member of \<open>ws\<close> that \<open>s\<close> begins with, 0 if there is none.\<close>

definition match_length :: "string list \<Rightarrow> string \<Rightarrow> nat" where
  "match_length ws s = (case find (\<lambda>w. prefix w s) ws of None \<Rightarrow> 0 | Some w \<Rightarrow> length w)"

text \<open>Removing the members of \<open>ws\<close> that \<open>s\<close> begins with, one after the other.\<close>

function strip :: "string list \<Rightarrow> string \<Rightarrow> string" where
  "strip ws s = (if match_length ws s = 0 then s else strip ws (drop (match_length ws s) s))"
  by pat_completeness auto
termination
proof (relation "measure (\<lambda>(ws, s). length s)")
  fix ws :: "string list" and s :: string
  assume "match_length ws s \<noteq> 0"
  then obtain w where "find (\<lambda>w. prefix w s) ws = Some w" and "w \<noteq> []"
    by (auto simp: match_length_def split: option.splits)
  then have "prefix w s" by (auto simp: find_Some_iff)
  with \<open>w \<noteq> []\<close> have "s \<noteq> []" by auto
  with \<open>match_length ws s \<noteq> 0\<close>
  show "((ws, drop (match_length ws s) s), (ws, s)) \<in> measure (\<lambda>(ws, s). length s)" by simp
qed simp

declare strip.simps [simp del]

text \<open>\<open>String.prototype.trim\<close>: white space is removed at both ends.\<close>

definition trim :: "string \<Rightarrow> string" where
  "trim s = rev (strip (map rev white_space) (rev (strip white_space s)))"

text \<open>\<open>String.prototype.includes\<close> for a one-character needle.\<close>

definition includes_char :: "char \<Rightarrow> string \<Rightarrow> bool" where
  "includes_char c s = (c \<in> set s)"

section \<open>JavaScript numbers\<close>

text \<open>
  A number is a double: not-a-number, an infinity, or a rational that the format
  represents (the two zeros are not told apart: the modelled code prints and compares them
  alike). An arithmetic operation returns the double nearest to the exact result, the one
  with the even significand of two that are equally near.
\<close>

datatype jsnum = NaN | PosInf | NegInf | Finite rat

text \<open>The number of binary digits of a natural number.\<close>

fun blen :: "nat \<Rightarrow> nat" where
  "blen n = (if n = 0 then 0 else Suc (blen (n div 2)))"

declare blen.simps [simp del]

text \<open>The exponent \<open>e\<close> with \<open>2 ^ e \<le> x < 2 ^ (e + 1)\<close>, for a positive \<open>x\<close>.\<close>

definition binade :: "rat \<Rightarrow> int" where
  "binade x = (if 1 \<le> x then int (blen (nat \<lfloor>x\<rfloor>)) - 1 else - int (blen (nat (\<lceil>1 / x\<rceil> - 1))))"

definition pow2 :: "int \<Rightarrow> rat" where
  "pow2 e = (if 0 \<le> e then 2 ^ nat e else 1 / 2 ^ nat (- e))"

definition round_half_even :: "rat \<Rightarrow> int" where
  "round_half_even r =
     (let f = \<lfloor>r\<rfloor>; d = r - of_int f
      in if d < 1 / 2 then f else if 1 / 2 < d then f + 1 else if even f then f else f + 1)"

text \<open>
  Rounding to a double: the doubles around \<open>x\<close> are the multiples of \<open>2 ^ q\<close>, where \<open>q\<close> is
  52 below the exponent of \<open>x\<close> and at least \<open>- 1074\<close>; a result of \<open>2 ^ 1024\<close> or more is an
  infinity.
\<close>

definition round_double :: "rat \<Rightarrow> jsnum" where
  "round_double x =
     (if x = 0 then Finite 0
      else let q = max (binade \<bar>x\<bar> - 52) (- 1074);
               y = of_int (round_half_even (\<bar>x\<bar> / pow2 q)) * pow2 q
           in if 2 ^ 1024 \<le> y then (if x < 0 then NegInf else PosInf)
              else Finite (if x < 0 then - y else y))"

fun js_add :: "jsnum \<Rightarrow> jsnum \<Rightarrow> jsnum" where
  "js_add (Finite x) (Finite y) = round_double (x + y)"
| "js_add NaN _ = NaN"
| "js_add _ NaN = NaN"
| "js_add PosInf NegInf = NaN"
| "js_add NegInf PosInf = NaN"
| "js_add PosInf _ = PosInf"
| "js_add _ PosInf = PosInf"
| "js_add NegInf _ = NegInf"
| "js_add _ NegInf = NegInf"

fun js_neg :: "jsnum \<Rightarrow> jsnum" where
  "js_neg (Finite x) = Finite (- x)"
| "js_neg PosInf = NegInf"
| "js_neg NegInf = PosInf"
| "js_neg NaN = NaN"

definition js_sub :: "jsnum \<Rightarrow> jsnum \<Rightarrow> jsnum" where
  "js_sub a b = js_add a (js_neg b)"

fun js_lt :: "jsnum \<Rightarrow> jsnum \<Rightarrow> bool" where
  "js_lt (Finite x) (Finite y) = (x < y)"
| "js_lt NaN _ = False"
| "js_lt _ NaN = False"
| "js_lt PosInf _ = False"
| "js_lt _ NegInf = False"
| "js_lt _ PosInf = True"
| "js_lt NegInf _ = True"

fun js_le :: "jsnum \<Rightarrow> jsnum \<Rightarrow> bool" where
  "js_le (Finite x) (Finite y) = (x \<le> y)"
| "js_le NaN _ = False"
| "js_le _ NaN = False"
| "js_le _ PosInf = True"
| "js_le NegInf _ = True"
| "js_le PosInf _ = False"
| "js_le _ NegInf = False"

text \<open>The decimal digits of a natural number.\<close>

definition digit_char :: "nat \<Rightarrow> char" where
  "digit_char d = ''0123456789'' ! d"

fun nat_digits :: "nat \<Rightarrow> string" where
  "nat_digits n = (if n < 10 then [digit_char n] else nat_digits (n div 10) @ [digit_char (n mod 10)])"

declare nat_digits.simps [simp del]

text \<open>The characters that \<open>nat_digits\<close> produces.\<close>

definition dec_char :: "char \<Rightarrow> bool" where
  "dec_char c = (\<exists>d<10. c = digit_char d)"

text \<open>
  \<open>parseInt\<close> with no radix argument: leading white space is skipped, a sign is read, a
  prefix \<open>0x\<close> or \<open>0X\<close> selects radix 16, and the longest prefix of digits of the radix is
  the value, rounded to a double; no digit at all is \<open>NaN\<close>.
\<close>

definition digit_value :: "char \<Rightarrow> nat option" where
  "digit_value c =
     (let k = (of_char c :: nat) in
      if 48 \<le> k \<and> k \<le> 57 then Some (k - 48)
      else if 97 \<le> k \<and> k \<le> 102 then Some (k - 87)
      else if 65 \<le> k \<and> k \<le> 70 then Some (k - 55)
      else None)"

definition is_digit_of :: "nat \<Rightarrow> char \<Rightarrow> bool" where
  "is_digit_of radix c = (case digit_value c of None \<Rightarrow> False | Some d \<Rightarrow> d < radix)"

definition digits_value :: "nat \<Rightarrow> string \<Rightarrow> nat" where
  "digits_value radix z = foldl (\<lambda>a c. a * radix + the (digit_value c)) 0 z"

definition parse_digits :: "nat \<Rightarrow> string \<Rightarrow> nat option" where
  "parse_digits radix s =
     (let z = takeWhile (is_digit_of radix) s
      in if z = [] then None else Some (digits_value radix z))"

definition strip_sign :: "string \<Rightarrow> int \<times> string" where
  "strip_sign s =
     (case s of
        c # rest \<Rightarrow> if c = CHR ''-'' then (- 1, rest) else if c = CHR ''+'' then (1, rest) else (1, s)
      | [] \<Rightarrow> (1, s))"

definition strip_hex_prefix :: "string \<Rightarrow> nat \<times> string" where
  "strip_hex_prefix s =
     (case s of
        a # b # rest \<Rightarrow> if a = CHR ''0'' \<and> (b = CHR ''x'' \<or> b = CHR ''X'') then (16, rest) else (10, s)
      | _ \<Rightarrow> (10, s))"

definition parseInt :: "string \<Rightarrow> jsnum" where
  "parseInt str =
     (let (sign, s1) = strip_sign (strip white_space str);
          (radix, s2) = strip_hex_prefix s1
      in case parse_digits radix s2 of
           None \<Rightarrow> NaN
         | Some n \<Rightarrow> round_double (of_int (sign * int n)))"

section \<open>Byte-size formatting (filesystem and system tools)\<close>

text \<open>
  \<open>Number.prototype.toFixed(2)\<close>: the integer \<open>n\<close> for which \<open>n / 100\<close> is nearest to the
  value (the larger one of two) is printed with a point before its last two digits. The
  byte counts are integers below \<open>2 ^ 53\<close>, and dividing one by 1024 is exact in binary
  floating point, so the scaled size is the rational number \<open>bytes / 1024 ^ k\<close>.
\<close>

definition toFixed2 :: "rat \<Rightarrow> string" where
  "toFixed2 x =
     (let n = nat \<lfloor>\<bar>x\<bar> * 100 + 1 / 2\<rfloor>;
          s = nat_digits (n div 100) @ ''.'' @ [digit_char (n mod 100 div 10), digit_char (n mod 10)]
      in if x < 0 then CHR ''-'' # s else s)"

definition units :: "string list" where
  "units = [''B'', ''KB'', ''MB'', ''GB'', ''TB'']"

text \<open>
  \<^verbatim>\<open>while (size >= 1024 && unitIndex < units.length - 1) { size /= 1024; unitIndex++; }\<close>
\<close>

function scale_loop :: "rat \<Rightarrow> nat \<Rightarrow> rat \<times> nat" where
  "scale_loop sz unitIndex =
     (if sz \<ge> 1024 \<and> unitIndex < length units - 1
      then scale_loop (sz / 1024) (unitIndex + 1)
      else (sz, unitIndex))"
  by pat_completeness auto
termination
  by (relation "measure (\<lambda>(sz, unitIndex). length units - 1 - unitIndex)") auto

declare scale_loop.simps [simp del]

definition formatFileSize :: "nat \<Rightarrow> string" where
  "formatFileSize bytes =
     (case scale_loop (of_nat bytes) 0 of
        (sz, unitIndex) \<Rightarrow> toFixed2 sz @ '' '' @ units ! unitIndex)"

definition formatBytes :: "nat \<Rightarrow> string" where
  "formatBytes bytes =
     (case scale_loop (of_nat bytes) 0 of
        (sz, unitIndex) \<Rightarrow> toFixed2 sz @ '' '' @ units ! unitIndex)"

text \<open>The unit the formatter selects and the value of a byte count in a unit.\<close>

definition unit_index :: "nat \<Rightarrow> nat" where
  "unit_index bytes = snd (scale_loop (of_nat bytes) 0)"

definition scaled :: "nat \<Rightarrow> nat \<Rightarrow> rat" where
  "scaled bytes k = of_nat bytes / 1024 ^ k"

text \<open>A rendering with exactly two decimal places: digits, a point, two digits.\<close>

definition two_decimals :: "string \<Rightarrow> bool" where
  "two_decimals s =
     (4 \<le> length s \<and> s ! (length s - 3) = CHR ''.''
      \<and> list_all dec_char (take (length s - 3) s) \<and> list_all dec_char (drop (length s - 2) s))"

section \<open>The environment of a request\<close>

text \<open>
  The file system, the process launcher and the path library are the environment of a
  request. A request sees one snapshot of it: each operation is a function of its
  argument, with \<open>Inl\<close> the message of the error it throws. Every handler returns, with its
  result, the list of the operations it performed, in order; a nested \<open>listDirectory\<close>
  invocation is recorded with its arguments and its own operations. The text that the
  engine prints for a number other than an integer of magnitude up to \<open>2 ^ 53\<close> is a function
  of the environment as well.
\<close>

datatype dirent_kind = FileEntry | DirectoryEntry | OtherEntry

record dirent =
  d_name :: string
  d_kind :: dirent_kind

definition isFile :: "dirent \<Rightarrow> bool" where
  "isFile item = (d_kind item = FileEntry)"

definition isDirectory :: "dirent \<Rightarrow> bool" where
  "isDirectory item = (d_kind item = DirectoryEntry)"

text \<open>\<open>st_mtime\<close> is \<open>stats.mtime.toISOString()\<close>.\<close>

record stats =
  st_size :: nat
  st_mtime :: string
  st_isDirectory :: bool

record env =
  fs_readdir :: "string \<Rightarrow> string + dirent list"
  fs_stat :: "string \<Rightarrow> string + stats"
  fs_readFile :: "string \<Rightarrow> string + string"
  path_join :: "string \<Rightarrow> string \<Rightarrow> string"
  execAsync :: "string \<Rightarrow> string + string"
  number_text :: "rat \<Rightarrow> string"

datatype event =
    Exec string
  | Readdir string
  | Stat string
  | ReadFile string
  | Call string bool jsnum "event list"

text \<open>A handler returns a report text (\<open>Inr\<close>) or throws an error with a message (\<open>Inl\<close>).\<close>

type_synonym outcome = "event list \<times> (string + string)"

definition is_Call :: "event \<Rightarrow> bool" where
  "is_Call e = (case e of Call _ _ _ _ \<Rightarrow> True | _ \<Rightarrow> False)"

definition quote :: string where
  "quote = [CHR 0x22]"

definition backslash :: string where
  "backslash = [CHR 0x5C]"

definition powershell :: "string \<Rightarrow> string" where
  "powershell command = ''powershell -Command '' @ quote @ command @ quote"

text \<open>The icons of the reports, as the bytes of the source files.\<close>

definition check_mark :: string where
  "check_mark = [CHR 0xE2, CHR 0x9C, CHR 0x85]"

definition cross_mark :: string where
  "cross_mark = [CHR 0xE2, CHR 0x9D, CHR 0x8C]"

definition folder_icon :: string where
  "folder_icon = [CHR 0xC3, CHR 0xB0, CHR 0xC5, CHR 0xB8, CHR 0xE2, CHR 0x80, CHR 0x9C]"

definition file_icon :: string where
  "file_icon = [CHR 0xC3, CHR 0xB0, CHR 0xC5, CHR 0xB8, CHR 0xE2, CHR 0x80, CHR 0x9C,
                CHR 0xE2, CHR 0x80, CHR 0x9E]"

definition fs_cross_mark :: string where
  "fs_cross_mark = [CHR 0xC3, CHR 0xA2, CHR 0xC5, CHR 0x92]"

definition perf_cross_mark :: string where
  "perf_cross_mark = [CHR 0xC3, CHR 0xA2, CHR 0xC5, CHR 0xA5, CHR 0xC5, CHR 0x9A]"

text \<open>
  \<open>Number.prototype.toString\<close>, also the conversion inside a template string: an integer of
  magnitude up to \<open>2 ^ 53\<close> is printed with all its decimal digits and a minus sign if
  negative.
\<close>

definition number_toString :: "env \<Rightarrow> jsnum \<Rightarrow> string" where
  "number_toString env x =
     (case x of
        NaN \<Rightarrow> ''NaN''
      | PosInf \<Rightarrow> ''Infinity''
      | NegInf \<Rightarrow> ''-Infinity''
      | Finite r \<Rightarrow>
          if r = of_int \<lfloor>r\<rfloor> \<and> \<bar>r\<bar> \<le> 2 ^ 53
          then (if r < 0 then CHR ''-'' # nat_digits (nat (- \<lfloor>r\<rfloor>)) else nat_digits (nat \<lfloor>r\<rfloor>))
          else number_text env r)"

section \<open>Port range expansion (network tool)\<close>

text \<open>
  An array holds at most \<open>2 ^ 32 - 1\<close> elements: \<open>push\<close> on a full array throws a
  \<open>RangeError\<close> with this message. (A process whose memory is exhausted before the array
  is full ends there; in the model the memory suffices.)
\<close>

definition max_array_length :: nat where
  "max_array_length = 2 ^ 32 - 1"

definition invalid_array_length :: string where
  "invalid_array_length = ''Invalid array length''"

text \<open>
  The loop of \<open>expandPortRange\<close>, with the array \<open>ports\<close> that it fills:
  \<^verbatim>\<open>for (let i = start; i <= end && i <= start + 100; i++) ports.push(i.toString())\<close>
\<close>

function port_loop :: "env \<Rightarrow> jsnum \<Rightarrow> jsnum \<Rightarrow> jsnum \<Rightarrow> string list \<Rightarrow> string + string list" where
  "port_loop env i endP start ports =
     (if js_le i endP \<and> js_le i (js_add start (Finite 100))
      then (if length ports < max_array_length
            then port_loop env (js_add i (Finite 1)) endP start (ports @ [number_toString env i])
            else Inl invalid_array_length)
      else Inr ports)"
  by pat_completeness auto
termination
  by (relation "measure (\<lambda>(env, i, endP, start, ports). max_array_length - length ports)") auto

declare port_loop.simps [simp del]

text \<open>
  \<open>const [start, end] = range.split('-').map(p => parseInt(p.trim()))\<close>: with a missing
  bound, which is \<open>undefined\<close>, or an unparsable one, which is \<open>NaN\<close>, every comparison is
  false and the loop body never runs.
\<close>

definition expandPortRange :: "env \<Rightarrow> string \<Rightarrow> string + string list" where
  "expandPortRange env portRange =
     (case map (\<lambda>p. parseInt (trim p)) (split_on CHR ''-'' portRange) of
        start # endP # _ \<Rightarrow> port_loop env start endP start []
      | _ \<Rightarrow> Inr [])"

section \<open>Port scan (network tool)\<close>

definition default_ports :: string where
  "default_ports = ''80,443,22,21,25,53,110,993,995''"

text \<open>\<open>if (!portRange) portRange = ...\<close>: an absent or empty specification is replaced.\<close>

definition effective_port_range :: "string option \<Rightarrow> string" where
  "effective_port_range portRange =
     (case portRange of None \<Rightarrow> default_ports | Some s \<Rightarrow> if s = [] then default_ports else s)"

text \<open>The sequence of ports of a specification, or the message of the error thrown.\<close>

definition port_sequence :: "env \<Rightarrow> string \<Rightarrow> string + string list" where
  "port_sequence env portRange =
     (if includes_char CHR ''-'' portRange then expandPortRange env portRange
      else Inr (map trim (split_on CHR '','' portRange)))"

definition probe_command :: "string \<Rightarrow> string \<Rightarrow> string" where
  "probe_command host port =
     ''Test-NetConnection -ComputerName '' @ host @ '' -Port '' @ port @ '' -InformationLevel Quiet''"

definition open_line :: "string \<Rightarrow> string" where
  "open_line port = check_mark @ '' Port '' @ port @ '': Open''"

definition closed_line :: "string \<Rightarrow> string" where
  "closed_line port = cross_mark @ '' Port '' @ port @ '': Closed/Filtered''"

definition error_line :: "string \<Rightarrow> string" where
  "error_line port = cross_mark @ '' Port '' @ port @ '': Timeout/Error''"

text \<open>
  The body of the probe loop: one command (run with a timeout of 3000 ms, whose expiry is
  an error of the command), one line pushed to \<open>results\<close>.
\<close>

definition probe :: "env \<Rightarrow> string \<Rightarrow> string \<Rightarrow> string" where
  "probe env host port =
     (case execAsync env (powershell (probe_command host port)) of
        Inr stdout \<Rightarrow> if trim stdout = ''True'' then open_line port else closed_line port
      | Inl _ \<Rightarrow> error_line port)"

fun probe_loop :: "env \<Rightarrow> string \<Rightarrow> string list \<Rightarrow> event list \<times> string list" where
  "probe_loop env host [] = ([], [])"
| "probe_loop env host (port # rest) =
     (case probe_loop env host rest of
        (evs, results) \<Rightarrow>
          (Exec (powershell (probe_command host port)) # evs, probe env host port # results))"

definition scan_header :: "string \<Rightarrow> string \<Rightarrow> string" where
  "scan_header host portRange =
     ''# Port Scan Results\<newline>\<newline>Target: '' @ host @ ''\<newline>Ports: '' @ portRange
     @ ''\<newline>\<newline>''"

text \<open>
  An error thrown while the ports are computed reaches the outer \<open>catch\<close>, which throws
  \<open>Failed to scan ports on <host>: <message>\<close>; the probes are inside a \<open>catch\<close> of their
  own.
\<close>

definition scanOpenPorts :: "env \<Rightarrow> string \<Rightarrow> string option \<Rightarrow> outcome" where
  "scanOpenPorts env host portRange =
     (let portRange = effective_port_range portRange
      in case port_sequence env portRange of
           Inl message \<Rightarrow> ([], Inl (''Failed to scan ports on '' @ host @ '': '' @ message))
         | Inr ports \<Rightarrow>
             (case probe_loop env host (take 20 ports) of
                (evs, results) \<Rightarrow>
                  (evs, Inr (scan_header host portRange @ join ''\<newline>'' results))))"

section \<open>Directory listing and file reading (filesystem tool)\<close>

text \<open>\<open>stats.mtime.toISOString().split('T')[0]\<close>\<close>

definition iso_date :: "string \<Rightarrow> string" where
  "iso_date isoString = (case split_on CHR ''T'' isoString of d # _ \<Rightarrow> d | [] \<Rightarrow> [])"

definition directory_line :: "string \<Rightarrow> string \<Rightarrow> string" where
  "directory_line name modified = folder_icon @ '' '' @ name @ ''/ ('' @ modified @ '')''"

definition file_line :: "string \<Rightarrow> string \<Rightarrow> string \<Rightarrow> string" where
  "file_line name sz modified = file_icon @ '' '' @ name @ '' ('' @ sz @ '', '' @ modified @ '')''"

definition directory_denied :: "string \<Rightarrow> string" where
  "directory_denied name = folder_icon @ '' '' @ name @ ''/ (access denied)''"

definition file_denied :: "string \<Rightarrow> string" where
  "file_denied name = file_icon @ '' '' @ name @ '' (access denied)''"

text \<open>
  The body of the first loop of \<open>listDirectory\<close>: one entry is pushed to \<open>directories\<close> or
  to \<open>files\<close>; a failing \<open>fs.stat\<close> is caught and the entry pushed with the marker.
\<close>

definition push_entry :: "env \<Rightarrow> string \<Rightarrow> string list \<times> string list \<Rightarrow> dirent \<Rightarrow> string list \<times> string list" where
  "push_entry env dirPath acc item =
     (case acc of (directories, files) \<Rightarrow>
        (case fs_stat env (path_join env dirPath (d_name item)) of
           Inr stats \<Rightarrow>
             (let sz = (if isFile item then formatFileSize (st_size stats) else []);
                  modified = iso_date (st_mtime stats)
              in if isDirectory item
                 then (directories @ [directory_line (d_name item) modified], files)
                 else (directories, files @ [file_line (d_name item) sz modified]))
         | Inl _ \<Rightarrow>
             if isDirectory item
             then (directories @ [directory_denied (d_name item)], files)
             else (directories, files @ [file_denied (d_name item)])))"

text \<open>The line that the loop pushes for one entry.\<close>

definition entry_line :: "env \<Rightarrow> string \<Rightarrow> dirent \<Rightarrow> string" where
  "entry_line env dirPath item =
     (case fs_stat env (path_join env dirPath (d_name item)) of
        Inr stats \<Rightarrow>
          if isDirectory item then directory_line (d_name item) (iso_date (st_mtime stats))
          else file_line (d_name item) (if isFile item then formatFileSize (st_size stats) else [])
                 (iso_date (st_mtime stats))
      | Inl _ \<Rightarrow>
          if isDirectory item then directory_denied (d_name item) else file_denied (d_name item))"

definition listing_text :: "env \<Rightarrow> string \<Rightarrow> dirent list \<Rightarrow> string" where
  "listing_text env dirPath items =
     (case foldl (push_entry env dirPath) ([], []) items of
        (directories, files) \<Rightarrow>
          ''# Directory Listing: '' @ dirPath @ ''\<newline>\<newline>''
          @ ''## Directories:\<newline>'' @ join ''\<newline>'' directories @ ''\<newline>\<newline>''
          @ ''## Files:\<newline>'' @ join ''\<newline>'' files)"

definition listing_events :: "env \<Rightarrow> string \<Rightarrow> dirent list \<Rightarrow> event list" where
  "listing_events env dirPath items =
     Readdir dirPath # map (\<lambda>item. Stat (path_join env dirPath (d_name item))) items"

definition recursive_header :: string where
  "recursive_header = ''\<newline>\<newline>## Subdirectories (recursive):\<newline>''"

text \<open>
  The body of the second loop, for one subdirectory: the nested listing under a heading,
  or the heading with the marker when the nested call throws.
\<close>

definition subdirectory_section :: "string \<Rightarrow> string + string \<Rightarrow> string" where
  "subdirectory_section name subResult =
     (case subResult of
        Inr listing \<Rightarrow> ''\<newline>### '' @ name @ ''/\<newline>'' @ listing @ ''\<newline>''
      | Inl _ \<Rightarrow> ''\<newline>### '' @ name @ ''/ (access denied)\<newline>'')"

definition cannot_list :: "string \<Rightarrow> string \<Rightarrow> string" where
  "cannot_list dirPath message = ''Cannot list directory '' @ dirPath @ '': '' @ message"

text \<open>
  The walker may call itself without end (its depth argument need not decrease, see
  below), so it is given fuel: the number of nested invocations that it may make. \<open>None\<close>
  means that the fuel did not suffice; a walk that never returns is one that is \<open>None\<close> for
  every amount of fuel.

  In the second loop every directory entry is visited in the order of the enumeration, with
  \<open>await this.listDirectory(subPath, true, maxDepth - 1)\<close>; the subtraction is one of
  doubles. \<open>subs\<close> pairs each directory entry with what its nested call returned.
\<close>

fun listDirectory :: "nat \<Rightarrow> env \<Rightarrow> string \<Rightarrow> bool \<Rightarrow> jsnum \<Rightarrow> outcome option" where
  "listDirectory 0 env dirPath recursive maxDepth = None"
| "listDirectory (Suc fuel) env dirPath recursive maxDepth =
     (case fs_readdir env dirPath of
        Inl message \<Rightarrow> Some ([Readdir dirPath], Inl (cannot_list dirPath message))
      | Inr items \<Rightarrow>
          if recursive \<and> js_lt (Finite 0) maxDepth
          then (case those (map (\<lambda>item. listDirectory fuel env (path_join env dirPath (d_name item))
                                         True (js_sub maxDepth (Finite 1)))
                              (filter isDirectory items)) of
                  None \<Rightarrow> None
                | Some subResults \<Rightarrow>
                    (let subs = zip (filter isDirectory items) subResults
                     in Some (listing_events env dirPath items
                              @ map (\<lambda>(item, subResult).
                                       Call (path_join env dirPath (d_name item)) True
                                         (js_sub maxDepth (Finite 1)) (fst subResult)) subs,
                              Inr (listing_text env dirPath items @ recursive_header
                                   @ concat (map (\<lambda>(item, subResult).
                                                    subdirectory_section (d_name item) (snd subResult))
                                               subs)))))
          else Some (listing_events env dirPath items, Inr (listing_text env dirPath items)))"

declare listDirectory.simps [simp del]

definition readFile :: "env \<Rightarrow> string \<Rightarrow> outcome" where
  "readFile env filePath =
     (case fs_stat env filePath of
        Inl message \<Rightarrow> ([Stat filePath], Inl (''Cannot read file '' @ filePath @ '': '' @ message))
      | Inr stats \<Rightarrow>
          if st_isDirectory stats
          then ([Stat filePath],
                Inl (''Cannot read file '' @ filePath @ '': '' @ ''Path is a directory, not a file''))
          else if st_size stats > 1024 * 1024
          then ([Stat filePath],
                Inl (''Cannot read file '' @ filePath @ '': ''
                     @ ''File too large (>1MB). Use file info to check size first.''))
          else (case fs_readFile env filePath of
                  Inl message \<Rightarrow>
                    ([Stat filePath, ReadFile filePath],
                     Inl (''Cannot read file '' @ filePath @ '': '' @ message))
                | Inr content \<Rightarrow>
                    ([Stat filePath, ReadFile filePath],
                     Inr (''# File Content: '' @ filePath @ ''\<newline>\<newline>```\<newline>'' @ content
                          @ ''\<newline>```''))))"

section \<open>Process details and termination (process manager tool)\<close>

text \<open>
  The truthiness of an optional number (zero and \<open>NaN\<close> are falsy) and of an optional
  string.
\<close>

definition truthy_number :: "jsnum option \<Rightarrow> bool" where
  "truthy_number x = (case x of None \<Rightarrow> False | Some n \<Rightarrow> n \<noteq> Finite 0 \<and> n \<noteq> NaN)"

definition truthy_string :: "string option \<Rightarrow> bool" where
  "truthy_string x = (case x of None \<Rightarrow> False | Some s \<Rightarrow> s \<noteq> [])"

definition missing_identifier :: string where
  "missing_identifier = ''Either process_id or process_name must be provided''"

definition kill_by_id :: "env \<Rightarrow> jsnum \<Rightarrow> string" where
  "kill_by_id env processId =
     ''Stop-Process -Id '' @ number_toString env processId @ '' -Force -ErrorAction Stop''"

definition kill_by_name :: "string \<Rightarrow> string" where
  "kill_by_name processName =
     ''Stop-Process -Name '' @ quote @ processName @ quote @ '' -Force -ErrorAction Stop''"

definition terminated :: "string \<Rightarrow> string" where
  "terminated identifier =
     ''# Process Terminated\<newline>\<newline>'' @ check_mark @ '' Successfully terminated '' @ identifier"

definition run_kill :: "env \<Rightarrow> string \<Rightarrow> string \<Rightarrow> outcome" where
  "run_kill env command identifier =
     (case execAsync env (powershell command) of
        Inl message \<Rightarrow> ([Exec (powershell command)], Inl (''Failed to kill process: '' @ message))
      | Inr _ \<Rightarrow> ([Exec (powershell command)], Inr (terminated identifier)))"

definition killProcess :: "env \<Rightarrow> jsnum option \<Rightarrow> string option \<Rightarrow> outcome" where
  "killProcess env processId processName =
     (if truthy_number processId
      then run_kill env (kill_by_id env (the processId)) (''PID '' @ number_toString env (the processId))
      else if truthy_string processName
      then run_kill env (kill_by_name (the processName)) (''process '' @ quote @ the processName @ quote)
      else ([], Inl (''Failed to kill process: '' @ missing_identifier)))"

definition details_by_id :: "env \<Rightarrow> jsnum \<Rightarrow> string" where
  "details_by_id env processId =
     ''Get-Process -Id '' @ number_toString env processId @ '' -ErrorAction Stop | Select-Object *''"

definition details_by_name :: "string \<Rightarrow> string" where
  "details_by_name processName =
     ''Get-Process -Name '' @ quote @ processName @ quote @ '' -ErrorAction Stop | Select-Object *''"

definition wmi_fields :: string where
  "wmi_fields = '' | Select-Object CommandLine, CreationDate, ExecutablePath, PageFileUsage, ThreadCount''"

definition wmi_by_id :: "env \<Rightarrow> jsnum \<Rightarrow> string" where
  "wmi_by_id env processId =
     ''Get-WmiObject -Class Win32_Process -Filter '' @ quote @ ''ProcessId=''
     @ number_toString env processId @ quote @ wmi_fields"

definition wmi_by_name :: "string \<Rightarrow> string" where
  "wmi_by_name processName =
     ''Get-WmiObject -Class Win32_Process -Filter '' @ quote @ ''Name='' @ [CHR 0x27] @ processName
     @ ''.exe'' @ [CHR 0x27] @ quote @ wmi_fields"

definition details_report :: "string \<Rightarrow> string \<Rightarrow> string" where
  "details_report stdout wmiOutput =
     ''# Process Details\<newline>\<newline>## Basic Information\<newline>```\<newline>'' @ stdout
     @ ''\<newline>```\<newline>\<newline>## Extended Information\<newline>```\<newline>'' @ wmiOutput @ ''\<newline>```''"

definition run_details :: "env \<Rightarrow> string \<Rightarrow> string \<Rightarrow> outcome" where
  "run_details env command wmiCommand =
     (case execAsync env (powershell command) of
        Inl message \<Rightarrow>
          ([Exec (powershell command)], Inl (''Failed to get process details: '' @ message))
      | Inr stdout \<Rightarrow>
          (case execAsync env (powershell wmiCommand) of
             Inl message \<Rightarrow>
               ([Exec (powershell command), Exec (powershell wmiCommand)],
                Inl (''Failed to get process details: '' @ message))
           | Inr wmiOutput \<Rightarrow>
               ([Exec (powershell command), Exec (powershell wmiCommand)],
                Inr (details_report stdout wmiOutput))))"

definition getProcessDetails :: "env \<Rightarrow> jsnum option \<Rightarrow> string option \<Rightarrow> outcome" where
  "getProcessDetails env processId processName =
     (if truthy_number processId
      then run_details env (details_by_id env (the processId)) (wmi_by_id env (the processId))
      else if truthy_string processName
      then run_details env (details_by_name (the processName)) (wmi_by_name (the processName))
      else ([], Inl (''Failed to get process details: '' @ missing_identifier)))"

section \<open>Dispatch\<close>

text \<open>
  The arguments of a request that the modelled handlers read; an absent one is \<open>None\<close>.
\<close>

record args =
  arg_action :: "string option"
  arg_path :: "string option"
  arg_recursive :: "bool option"
  arg_max_depth :: "jsnum option"
  arg_process_id :: "jsnum option"
  arg_process_name :: "string option"
  arg_host :: "string option"
  arg_port_range :: "string option"

text \<open>A value in a template string: an absent one is printed as \<open>undefined\<close>.\<close>

definition template :: "string option \<Rightarrow> string" where
  "template x = (case x of None \<Rightarrow> ''undefined'' | Some s \<Rightarrow> s)"

record response =
  resp_text :: string
  resp_isError :: bool

text \<open>
  The \<open>run\<close> method of a tool: a \<open>switch\<close> on the action, whose cases are listed in the
  order of the source with the outcome of each handler on the request, and whose default
  throws \<open>Unknown action: <action>\<close>; the \<open>catch\<close> around it turns every thrown error into
  an error response.
\<close>

fun switch :: "(string \<times> 'a) list \<Rightarrow> 'a \<Rightarrow> string option \<Rightarrow> 'a" where
  "switch [] otherwise act = otherwise"
| "switch ((label, result) # cases) otherwise act =
     (if act = Some label then result else switch cases otherwise act)"

definition unknown_action :: "string option \<Rightarrow> outcome" where
  "unknown_action act = ([], Inl (''Unknown action: '' @ template act))"

definition respond :: "string \<Rightarrow> outcome \<Rightarrow> event list \<times> response" where
  "respond failure result =
     (case result of
        (evs, Inr report) \<Rightarrow> (evs, \<lparr>resp_text = report, resp_isError = False\<rparr>)
      | (evs, Inl message) \<Rightarrow> (evs, \<lparr>resp_text = failure @ message, resp_isError = True\<rparr>))"

text \<open>
  The handlers that are not modelled in detail are a parameter \<open>other\<close>: the outcome of the
  handler of a tool and an action on the request.
\<close>

text \<open>The message of the error that \<open>fs.stat\<close> throws when it is given no path.\<close>

definition invalid_path :: string where
  "invalid_path = ''The '' @ quote @ ''path'' @ quote
     @ '' argument must be of type string or an instance of Buffer or URL. Received undefined''"

text \<open>
  The filesystem tool takes the fuel of the directory walker, and returns \<open>None\<close> when the
  walker does.
\<close>

definition filesystem_run :: "nat \<Rightarrow> env \<Rightarrow> (string \<Rightarrow> string \<Rightarrow> outcome) \<Rightarrow> args
    \<Rightarrow> (event list \<times> response) option" where
  "filesystem_run fuel env other a =
     map_option (respond (fs_cross_mark @ '' File system operation failed: ''))
       (switch
          [(''list_directory'',
              listDirectory fuel env
                (if truthy_string (arg_path a) then the (arg_path a) else ''C:'' @ backslash)
                (case arg_recursive a of None \<Rightarrow> False | Some r \<Rightarrow> r)
                (case arg_max_depth a of None \<Rightarrow> Finite 3 | Some d \<Rightarrow> d)),
           (''read_file'',
              Some (case arg_path a of
                      None \<Rightarrow> ([], Inl (''Cannot read file undefined: '' @ invalid_path))
                    | Some p \<Rightarrow> readFile env p)),
           (''search_files'', Some (other ''filesystem'' ''search_files'')),
           (''get_file_info'', Some (other ''filesystem'' ''get_file_info'')),
           (''find_large_files'', Some (other ''filesystem'' ''find_large_files'')),
           (''get_disk_usage'', Some (other ''filesystem'' ''get_disk_usage''))]
          (Some (unknown_action (arg_action a)))
          (arg_action a))"

definition process_manager_run :: "env \<Rightarrow> (string \<Rightarrow> string \<Rightarrow> outcome) \<Rightarrow> args \<Rightarrow> event list \<times> response" where
  "process_manager_run env other a =
     respond (cross_mark @ '' Process management operation failed: '')
       (switch
          [(''list_processes'', other ''process_manager'' ''list_processes''),
           (''get_process_details'', getProcessDetails env (arg_process_id a) (arg_process_name a)),
           (''kill_process'', killProcess env (arg_process_id a) (arg_process_name a)),
           (''find_process'', other ''process_manager'' ''find_process''),
           (''get_top_processes'', other ''process_manager'' ''get_top_processes''),
           (''get_process_tree'', other ''process_manager'' ''get_process_tree'')]
          (unknown_action (arg_action a))
          (arg_action a))"

definition system_info_run :: "(string \<Rightarrow> string \<Rightarrow> outcome) \<Rightarrow> args \<Rightarrow> event list \<times> response" where
  "system_info_run other a =
     respond (cross_mark @ '' System information operation failed: '')
       (switch
          (map (\<lambda>label. (label, other ''system_info'' label))
             [''get_system_overview'', ''get_hardware_info'', ''get_os_info'', ''get_environment_vars'',
              ''get_installed_software'', ''get_system_uptime'', ''get_user_info'', ''get_system_paths''])
          (unknown_action (arg_action a))
          (arg_action a))"

definition registry_run :: "(string \<Rightarrow> string \<Rightarrow> outcome) \<Rightarrow> args \<Rightarrow> event list \<times> response" where
  "registry_run other a =
     respond (cross_mark @ '' Registry operation failed: '')
       (switch
          (map (\<lambda>label. (label, other ''registry'' label))
             [''read_key'', ''read_value'', ''search_keys'', ''list_subkeys'', ''get_startup_programs'',
              ''get_installed_programs'', ''get_system_info_from_registry''])
          (unknown_action (arg_action a))
          (arg_action a))"

definition service_manager_run :: "(string \<Rightarrow> string \<Rightarrow> outcome) \<Rightarrow> args \<Rightarrow> event list \<times> response" where
  "service_manager_run other a =
     respond (cross_mark @ '' Service management operation failed: '')
       (switch
          (map (\<lambda>label. (label, other ''service_manager'' label))
             [''list_services'', ''get_service_details'', ''start_service'', ''stop_service'',
              ''restart_service'', ''get_service_status'', ''find_service'', ''get_running_services'',
              ''get_startup_services''])
          (unknown_action (arg_action a))
          (arg_action a))"

definition network_run :: "env \<Rightarrow> (string \<Rightarrow> string \<Rightarrow> outcome) \<Rightarrow> args \<Rightarrow> event list \<times> response" where
  "network_run env other a =
     respond (cross_mark @ '' Network operation failed: '')
       (switch
          [(''get_network_adapters'', other ''network'' ''get_network_adapters''),
           (''get_active_connections'', other ''network'' ''get_active_connections''),
           (''get_listening_ports'', other ''network'' ''get_listening_ports''),
           (''get_routing_table'', other ''network'' ''get_routing_table''),
           (''ping_host'', other ''network'' ''ping_host''),
           (''trace_route'', other ''network'' ''trace_route''),
           (''get_dns_info'', other ''network'' ''get_dns_info''),
           (''get_network_statistics'', other ''network'' ''get_network_statistics''),
           (''scan_open_ports'', scanOpenPorts env (template (arg_host a)) (arg_port_range a)),
           (''get_wifi_profiles'', other ''network'' ''get_wifi_profiles'')]
          (unknown_action (arg_action a))
          (arg_action a))"

definition performance_run :: "(string \<Rightarrow> string \<Rightarrow> outcome) \<Rightarrow> args \<Rightarrow> event list \<times> response" where
  "performance_run other a =
     respond (perf_cross_mark @ '' Performance monitoring operation failed: '')
       (switch
          (map (\<lambda>label. (label, other ''performance'' label))
             [''get_cpu_usage'', ''get_memory_usage'', ''get_disk_usage'', ''get_disk_io'',
              ''get_network_io'', ''get_system_performance'', ''get_top_processes_by_cpu'',
              ''get_top_processes_by_memory'', ''get_performance_counters'', ''monitor_real_time''])
          (unknown_action (arg_action a))
          (arg_action a))"

text \<open>The enumerated actions of each tool, as its schema declares them.\<close>

definition tool_actions :: "string \<Rightarrow> string list option" where
  "tool_actions name =
     (if name = ''filesystem'' then Some [''list_directory'', ''read_file'', ''search_files'',
        ''get_file_info'', ''find_large_files'', ''get_disk_usage'']
      else if name = ''process_manager'' then Some [''list_processes'', ''get_process_details'',
        ''kill_process'', ''find_process'', ''get_top_processes'', ''get_process_tree'']
      else if name = ''system_info'' then Some [''get_system_overview'', ''get_hardware_info'',
        ''get_os_info'', ''get_environment_vars'', ''get_installed_software'', ''get_system_uptime'',
        ''get_user_info'', ''get_system_paths'']
      else if name = ''registry'' then Some [''read_key'', ''read_value'', ''search_keys'',
        ''list_subkeys'', ''get_startup_programs'', ''get_installed_programs'',
        ''get_system_info_from_registry'']
      else if name = ''service_manager'' then Some [''list_services'', ''get_service_details'',
        ''start_service'', ''stop_service'', ''restart_service'', ''get_service_status'',
        ''find_service'', ''get_running_services'', ''get_startup_services'']
      else if name = ''network'' then Some [''get_network_adapters'', ''get_active_connections'',
        ''get_listening_ports'', ''get_routing_table'', ''ping_host'', ''trace_route'', ''get_dns_info'',
        ''get_network_statistics'', ''scan_open_ports'', ''get_wifi_profiles'']
      else if name = ''performance'' then Some [''get_cpu_usage'', ''get_memory_usage'',
        ''get_disk_usage'', ''get_disk_io'', ''get_network_io'', ''get_system_performance'',
        ''get_top_processes_by_cpu'', ''get_top_processes_by_memory'', ''get_performance_counters'',
        ''monitor_real_time'']
      else None)"

text \<open>
  The handler of a tool call: a \<open>switch\<close> on the tool name whose default throws
  (\<open>Inl\<close>, the message of the error), with \<open>request.params.arguments || {}\<close> as arguments.
  It takes the fuel of the filesystem tool.
\<close>

definition no_args :: args where
  "no_args = \<lparr>arg_action = None, arg_path = None, arg_recursive = None, arg_max_depth = None,
               arg_process_id = None, arg_process_name = None, arg_host = None, arg_port_range = None\<rparr>"

definition call_tool :: "nat \<Rightarrow> env \<Rightarrow> (string \<Rightarrow> string \<Rightarrow> outcome) \<Rightarrow> string \<Rightarrow> args option
    \<Rightarrow> (event list \<times> (string + response)) option" where
  "call_tool fuel env other name arguments =
     (let a = (case arguments of None \<Rightarrow> no_args | Some a \<Rightarrow> a) in
      if name = ''filesystem'' then map_option (map_prod id Inr) (filesystem_run fuel env other a)
      else if name = ''process_manager'' then Some (map_prod id Inr (process_manager_run env other a))
      else if name = ''system_info'' then Some (map_prod id Inr (system_info_run other a))
      else if name = ''registry'' then Some (map_prod id Inr (registry_run other a))
      else if name = ''service_manager'' then Some (map_prod id Inr (service_manager_run other a))
      else if name = ''network'' then Some (map_prod id Inr (network_run env other a))
      else if name = ''performance'' then Some (map_prod id Inr (performance_run other a))
      else Some ([], Inl (''Unknown tool: '' @ name)))"

section \<open>An example environment\<close>

text \<open>
  A file system with a directory \<open>data\<close> of two subfolders and one file, a directory
  \<open>mixed\<close> with an entry that cannot be inspected and a subdirectory that cannot be opened,
  a directory \<open>loop\<close> that has a subdirectory \<open>again\<close> at every level, and a file of
  1048577 bytes; a process launcher on which the probe of port 2 fails and the probe of
  port 3 answers \<open>True\<close>.
\<close>

definition data_dir :: string where
  "data_dir = ''C:'' @ backslash @ ''data''"

definition mixed_dir :: string where
  "mixed_dir = ''C:'' @ backslash @ ''mixed''"

definition loop_dir :: string where
  "loop_dir = ''C:'' @ backslash @ ''loop''"

definition big_file :: string where
  "big_file = ''C:'' @ backslash @ ''big.bin''"

definition sub :: "string \<Rightarrow> string \<Rightarrow> string" where
  "sub dir name = dir @ backslash @ name"

definition entry :: "string \<Rightarrow> dirent_kind \<Rightarrow> dirent" where
  "entry name kind = \<lparr>d_name = name, d_kind = kind\<rparr>"

definition demo_readdir :: "string \<Rightarrow> string + dirent list" where
  "demo_readdir p =
     (if p = data_dir
      then Inr [entry ''docs'' DirectoryEntry, entry ''notes.txt'' FileEntry, entry ''logs'' DirectoryEntry]
      else if p = mixed_dir
      then Inr [entry ''secret.txt'' FileEntry, entry ''ok.txt'' FileEntry,
                entry ''locked'' DirectoryEntry, entry ''open'' DirectoryEntry]
      else if p = sub mixed_dir ''open'' then Inr []
      else if prefix loop_dir p then Inr [entry ''again'' DirectoryEntry]
      else Inl ''EPERM: operation not permitted'')"

definition demo_stat :: "string \<Rightarrow> string + stats" where
  "demo_stat p =
     (if p = sub mixed_dir ''secret.txt'' then Inl ''EPERM: operation not permitted''
      else if p = big_file
      then Inr \<lparr>st_size = 1048577, st_mtime = ''2024-03-01T00:00:00.000Z'', st_isDirectory = False\<rparr>
      else if p = sub data_dir ''notes.txt'' \<or> p = sub mixed_dir ''ok.txt''
      then Inr \<lparr>st_size = 1536, st_mtime = ''2024-02-01T08:00:00.000Z'', st_isDirectory = False\<rparr>
      else Inr \<lparr>st_size = 0, st_mtime = ''2024-01-15T10:30:00.000Z'', st_isDirectory = True\<rparr>)"

definition demo_exec :: "string \<Rightarrow> string + string" where
  "demo_exec command =
     (if command = powershell (probe_command ''localhost'' ''2'') then Inl ''Command failed''
      else if command = powershell (probe_command ''localhost'' ''3'') then Inr ''True\<newline>''
      else Inr ''False\<newline>'')"

definition demo_env :: env where
  "demo_env = \<lparr>fs_readdir = demo_readdir, fs_stat = demo_stat, fs_readFile = (\<lambda>p. Inr ''hello''),
                path_join = sub, execAsync = demo_exec, number_text = (\<lambda>r. ''1e+21'')\<rparr>"

definition no_other :: "string \<Rightarrow> string \<Rightarrow> outcome" where
  "no_other tool act = ([], Inl ''not modelled'')"

text \<open>
  Requests: an action alone, with a path, with a path and a depth for a recursive walk,
  and with a process identification.
\<close>

definition request :: "string \<Rightarrow> args" where
  "request act = no_args\<lparr>arg_action := Some act\<rparr>"

definition path_request :: "string \<Rightarrow> string \<Rightarrow> args" where
  "path_request act p = no_args\<lparr>arg_action := Some act, arg_path := Some p\<rparr>"

definition walk_request :: "string \<Rightarrow> jsnum \<Rightarrow> args" where
  "walk_request p d =
     no_args\<lparr>arg_action := Some ''list_directory'', arg_path := Some p, arg_recursive := Some True,
             arg_max_depth := Some d\<rparr>"

definition process_request :: "string \<Rightarrow> jsnum option \<Rightarrow> string option \<Rightarrow> args" where
  "process_request act pid name =
     no_args\<lparr>arg_action := Some act, arg_process_id := pid, arg_process_name := name\<rparr>"

section \<open>Properties\<close>

subsection \<open>Rounding to a double\<close>

lemma blen_le: "n < 2 ^ k \<Longrightarrow> blen n \<le> k"
proof (induction k arbitrary: n)
  case 0
  then show ?case by (simp add: blen.simps)
next
  case (Suc k)
  show ?case
  proof (cases "n = 0")
    case True
    then show ?thesis by (simp add: blen.simps)
  next
    case False
    have "n div 2 < 2 ^ k" using Suc.prems by auto
    then have "blen (n div 2) \<le> k" by (rule Suc.IH)
    then show ?thesis using False by (subst blen.simps) simp
  qed
qed

lemma pow2_pos: "0 < pow2 e"
  by (simp add: pow2_def)

lemma pow2_le_one: "e \<le> 0 \<Longrightarrow> pow2 e \<le> 1"
  by (auto simp: pow2_def field_simps)

lemma binade_le:
  assumes "0 < x" "x < 2 ^ 53"
  shows "binade x \<le> 52"
proof (cases "1 \<le> x")
  case True
  have "\<lfloor>x\<rfloor> < 2 ^ 53" using assms(2) by (subst floor_less_iff) simp
  then have "\<lfloor>x\<rfloor> < 9007199254740992" by simp
  then have "nat \<lfloor>x\<rfloor> < 9007199254740992" by linarith
  then have "nat \<lfloor>x\<rfloor> < 2 ^ 53" by simp
  then have "blen (nat \<lfloor>x\<rfloor>) \<le> 53" by (rule blen_le)
  then show ?thesis using True by (simp add: binade_def)
next
  case False
  then show ?thesis by (simp add: binade_def)
qed

lemma round_half_even_near: "\<bar>of_int (round_half_even r) - r\<bar> \<le> 1 / 2"
proof -
  have a: "of_int \<lfloor>r\<rfloor> \<le> r" and b: "r < of_int \<lfloor>r\<rfloor> + 1"
    by linarith+
  show ?thesis
    unfolding round_half_even_def Let_def using a b by (simp add: abs_le_iff; linarith)
qed

lemma round_half_even_of_int: "round_half_even (of_int k) = k"
  by (simp add: round_half_even_def)

text \<open>Below \<open>2 ^ 53\<close> the doubles are at most 1 apart: rounding moves a number by 1/2 at most.\<close>

lemma round_double_near:
  assumes "x \<noteq> 0" "\<bar>x\<bar> < 2 ^ 53"
  shows "\<exists>y. round_double x = Finite y \<and> \<bar>y - x\<bar> \<le> 1 / 2"
proof -
  define q where "q = max (binade \<bar>x\<bar> - 52) (- 1074)"
  define m where "m = round_half_even (\<bar>x\<bar> / pow2 q)"
  define y where "y = of_int m * pow2 q"
  have "binade \<bar>x\<bar> \<le> 52" using assms by (intro binade_le) auto
  then have q: "q \<le> 0" by (simp add: q_def)
  have p: "0 < pow2 q" "pow2 q \<le> 1" using q by (simp_all add: pow2_pos pow2_le_one)
  have "\<bar>of_int m - \<bar>x\<bar> / pow2 q\<bar> \<le> 1 / 2" unfolding m_def by (rule round_half_even_near)
  then have "\<bar>of_int m - \<bar>x\<bar> / pow2 q\<bar> * pow2 q \<le> 1 / 2 * pow2 q"
    using p by (intro mult_right_mono) auto
  moreover have "\<bar>of_int m - \<bar>x\<bar> / pow2 q\<bar> * pow2 q = \<bar>y - \<bar>x\<bar>\<bar>"
  proof -
    have "\<bar>of_int m - \<bar>x\<bar> / pow2 q\<bar> * pow2 q = \<bar>(of_int m - \<bar>x\<bar> / pow2 q) * pow2 q\<bar>"
      using p(1) by (simp add: abs_mult)
    also have "(of_int m - \<bar>x\<bar> / pow2 q) * pow2 q = y - \<bar>x\<bar>"
      using p(1) by (simp add: y_def left_diff_distrib)
    finally show ?thesis .
  qed
  ultimately have near: "\<bar>y - \<bar>x\<bar>\<bar> \<le> 1 / 2" using p by linarith
  have big: "(2::rat) ^ 53 + 1 < 2 ^ 1024" by simp
  have "y < 2 ^ 1024" using near assms(2) big by linarith
  then have "round_double x = Finite (if x < 0 then - y else y)"
    using assms by (simp add: round_double_def Let_def q_def m_def y_def)
  moreover have "\<bar>(if x < 0 then - y else y) - x\<bar> \<le> 1 / 2"
    using near unfolding abs_if by (simp split: if_splits; linarith)
  ultimately show ?thesis by blast
qed

text \<open>An integer below \<open>2 ^ 53\<close> in magnitude is a double.\<close>

lemma round_double_of_int:
  assumes "\<bar>n\<bar> < 2 ^ 53"
  shows "round_double (of_int n) = Finite (of_int n)"
proof (cases "n = 0")
  case True
  then show ?thesis by (simp add: round_double_def)
next
  case False
  define x :: rat where "x = of_int n"
  define q where "q = max (binade \<bar>x\<bar> - 52) (- 1074)"
  have x: "x \<noteq> 0" "\<bar>x\<bar> < 2 ^ 53"
    using False assms unfolding x_def
    by (simp_all flip: of_int_abs add: of_int_less_numeral_power_cancel_iff)
  have "binade \<bar>x\<bar> \<le> 52" using x by (intro binade_le) auto
  then have q: "q \<le> 0" by (simp add: q_def)
  have "\<bar>x\<bar> / pow2 q = of_int (\<bar>n\<bar> * 2 ^ nat (- q))" using q by (simp add: pow2_def x_def)
  then have "round_half_even (\<bar>x\<bar> / pow2 q) = \<bar>n\<bar> * 2 ^ nat (- q)"
    by (simp only: round_half_even_of_int)
  then have y: "of_int (round_half_even (\<bar>x\<bar> / pow2 q)) * pow2 q = \<bar>x\<bar>"
    using q by (simp add: pow2_def x_def)
  have big: "(2::rat) ^ 53 < 2 ^ 1024" by simp
  have "\<bar>x\<bar> < 2 ^ 1024" using x(2) big by linarith
  then show ?thesis
    using x(1) y unfolding round_double_def Let_def q_def[symmetric] x_def[symmetric]
    by (auto simp: abs_if split: if_splits)
qed

lemma round_double_of_nat: "n < 2 ^ 53 \<Longrightarrow> round_double (of_nat n) = Finite (of_nat n)"
  using round_double_of_int[of "int n"] by simp

lemma floor_numeral_div: "\<lfloor>(numeral a :: rat) / numeral b\<rfloor> = numeral a div numeral b"
  using floor_divide_of_int_eq [of "numeral a" "numeral b", where ?'a = rat] by simp

lemmas double_eval = round_double_def binade_def pow2_def round_half_even_def Let_def blen.simps
  floor_numeral_div js_sub_def

text \<open>
  From \<open>2 ^ 53\<close> on the doubles are 2 or more apart: adding 1 to \<open>2 ^ 53\<close> and subtracting 1
  from \<open>2 ^ 53 + 4\<close> give the number itself.
\<close>

lemma add_one_stuck: "js_add (Finite 9007199254740992) (Finite 1) = Finite 9007199254740992"
  by (simp add: double_eval)

lemma sub_one_stuck: "js_sub (Finite 9007199254740996) (Finite 1) = Finite 9007199254740996"
  by (simp add: double_eval)

subsection \<open>Numerals and parsing\<close>

lemma of_char_digit_char:
  assumes "d < 10"
  shows "(of_char (digit_char d) :: nat) = 48 + d"
proof -
  have "d \<in> {0, 1, 2, 3, 4, 5, 6, 7, 8, 9}" using assms by auto
  then show ?thesis by (auto simp: digit_char_def)
qed

lemma digit_char_neq:
  assumes "d < 10" and "(of_char c :: nat) < 48"
  shows "digit_char d \<noteq> c"
  using assms of_char_digit_char[of d] by auto

lemma digit_char_neq2:
  assumes "d < 10" and "(of_char c :: nat) > 57"
  shows "digit_char d \<noteq> c"
  using assms of_char_digit_char[of d] by auto

lemma match_length_none:
  assumes "\<forall>w \<in> set ws. w \<noteq> [] \<and> hd w \<noteq> c"
  shows "match_length ws (c # s) = 0"
proof -
  have "\<not> prefix w (c # s)" if "w \<in> set ws" for w
    using assms that by (cases w) auto
  then have "find (\<lambda>w. prefix w (c # s)) ws = None"
    by (auto simp: find_None_iff)
  then show ?thesis by (simp add: match_length_def)
qed

lemma strip_id: "\<forall>w \<in> set ws. w \<noteq> [] \<and> hd w \<noteq> c \<Longrightarrow> strip ws (c # s) = c # s"
  by (subst strip.simps) (simp add: match_length_none)

lemma white_space_heads:
  assumes "48 \<le> (of_char c :: nat)" "(of_char c :: nat) \<le> 57"
  shows "\<forall>w \<in> set white_space. w \<noteq> [] \<and> hd w \<noteq> c"
    and "\<forall>w \<in> set (map rev white_space). w \<noteq> [] \<and> hd w \<noteq> c"
  using assms by (auto simp: white_space_def)

lemma digit_char_props:
  assumes "d < 10"
  shows "digit_value (digit_char d) = Some d"
    and "digit_char d \<noteq> CHR ''-''" and "digit_char d \<noteq> CHR ''+''"
    and "digit_char d \<noteq> CHR ''x''" and "digit_char d \<noteq> CHR ''X''"
    and "strip white_space (digit_char d # s) = digit_char d # s"
    and "strip (map rev white_space) (digit_char d # s) = digit_char d # s"
proof -
  show "digit_value (digit_char d) = Some d"
    using assms by (simp add: digit_value_def of_char_digit_char)
  show "digit_char d \<noteq> CHR ''-''" "digit_char d \<noteq> CHR ''+''"
    using assms by (simp_all add: digit_char_neq)
  show "digit_char d \<noteq> CHR ''x''" "digit_char d \<noteq> CHR ''X''"
    using assms by (simp_all add: digit_char_neq2)
  have b: "48 \<le> (of_char (digit_char d) :: nat)" "(of_char (digit_char d) :: nat) \<le> 57"
    using assms by (simp_all add: of_char_digit_char)
  show "strip white_space (digit_char d # s) = digit_char d # s"
    by (rule strip_id) (rule white_space_heads(1)[OF b])
  show "strip (map rev white_space) (digit_char d # s) = digit_char d # s"
    by (rule strip_id) (rule white_space_heads(2)[OF b])
qed

lemma is_digit_of_digit_char: "d < 10 \<Longrightarrow> is_digit_of 10 (digit_char d)"
  by (simp add: is_digit_of_def digit_char_props)

lemma nat_digits_dec: "c \<in> set (nat_digits n) \<Longrightarrow> dec_char c"
proof (induction n arbitrary: c rule: nat_digits.induct)
  case (1 n)
  show ?case
  proof (cases "n < 10")
    case True
    with "1.prems" have "c = digit_char n" by (subst (asm) nat_digits.simps) simp
    with True show ?thesis by (auto simp: dec_char_def)
  next
    case False
    with "1.prems" have "c \<in> set (nat_digits (n div 10)) \<or> c = digit_char (n mod 10)"
      by (subst (asm) nat_digits.simps) auto
    moreover have "dec_char (digit_char (n mod 10))"
      unfolding dec_char_def by (rule exI[of _ "n mod 10"]) simp
    ultimately show ?thesis using "1.IH"[OF False] by auto
  qed
qed

lemma nat_digits_nonempty: "nat_digits n \<noteq> []"
  by (subst nat_digits.simps) simp

lemma split_on_none: "c \<notin> set s \<Longrightarrow> split_on c s = [s]"
  by (induction s) auto

lemma split_on_append: "c \<notin> set a \<Longrightarrow> split_on c (a @ c # b) = a # split_on c b"
  by (induction a) auto

lemma dec_char_props:
  assumes "dec_char c"
  shows "c \<noteq> CHR ''-''" and "c \<noteq> CHR ''+''" and "c \<noteq> CHR ''x''"
    and "c \<noteq> CHR ''X''" and "is_digit_of 10 c"
    and "strip white_space (c # s) = c # s"
    and "strip (map rev white_space) (c # s) = c # s"
proof -
  from assms obtain d where d: "d < 10" and c: "c = digit_char d"
    unfolding dec_char_def by blast
  show "c \<noteq> CHR ''-''" "c \<noteq> CHR ''+''" "c \<noteq> CHR ''x''" "c \<noteq> CHR ''X''"
    unfolding c using digit_char_props(2-5)[OF d] by blast+
  show "is_digit_of 10 c"
    unfolding c by (rule is_digit_of_digit_char[OF d])
  show "strip white_space (c # s) = c # s" "strip (map rev white_space) (c # s) = c # s"
    unfolding c by (rule digit_char_props(6,7)[OF d])+
qed

lemma trim_nat_digits: "trim (nat_digits n) = nat_digits n"
proof -
  obtain c rest where s: "nat_digits n = c # rest"
    using nat_digits_nonempty[of n] by (cases "nat_digits n") auto
  obtain c' rest' where r: "rev (nat_digits n) = c' # rest'"
    using nat_digits_nonempty[of n] by (cases "rev (nat_digits n)") auto
  have "dec_char c" using s nat_digits_dec[of c n] by simp
  moreover have "c' \<in> set (nat_digits n)" using r by (metis list.set_intros(1) set_rev)
  then have "dec_char c'" by (rule nat_digits_dec)
  ultimately have "strip white_space (c # rest) = c # rest"
    and "strip (map rev white_space) (c' # rest') = c' # rest'"
    by (simp_all add: dec_char_props)
  then have "strip white_space (nat_digits n) = nat_digits n"
    and "strip (map rev white_space) (rev (nat_digits n)) = rev (nat_digits n)"
    unfolding s[symmetric] r[symmetric] by blast+
  then show ?thesis by (simp add: trim_def)
qed

lemma digits_value_nat_digits: "digits_value 10 (nat_digits n) = n"
proof (induction n rule: nat_digits.induct)
  case (1 n)
  show ?case
  proof (cases "n < 10")
    case True
    then show ?thesis by (subst nat_digits.simps) (simp add: digits_value_def digit_char_props)
  next
    case False
    have "digits_value 10 (nat_digits n) = digits_value 10 (nat_digits (n div 10)) * 10 + n mod 10"
      using False by (subst nat_digits.simps) (simp add: digits_value_def digit_char_props)
    with "1.IH"[OF False] show ?thesis by simp
  qed
qed

lemma nat_digits_no_minus: "CHR ''-'' \<notin> set (nat_digits n)"
  using nat_digits_dec dec_char_props(1) by blast

lemma nat_digits_all_digits: "takeWhile (is_digit_of 10) (nat_digits n) = nat_digits n"
  unfolding takeWhile_eq_all_conv using nat_digits_dec dec_char_props(5) by blast

lemma parseInt_nat_digits: "parseInt (nat_digits n) = round_double (of_nat n)"
proof -
  obtain c rest where s: "nat_digits n = c # rest"
    using nat_digits_nonempty[of n] by (cases "nat_digits n") auto
  then have c: "dec_char c" and rest: "\<forall>x \<in> set rest. dec_char x"
    using nat_digits_dec[of _ n] by auto
  have 1: "strip white_space (nat_digits n) = nat_digits n"
    using c s by (simp add: dec_char_props)
  have 2: "strip_sign (nat_digits n) = (1, nat_digits n)"
    using c s by (simp add: strip_sign_def dec_char_props)
  have 3: "strip_hex_prefix (nat_digits n) = (10, nat_digits n)"
    using rest s by (cases rest) (simp_all add: strip_hex_prefix_def dec_char_props)
  show ?thesis
    by (simp add: parseInt_def 1 2 3 parse_digits_def nat_digits_all_digits
        nat_digits_nonempty digits_value_nat_digits)
qed

text \<open>Examples: white space at both ends, a no-break space, signs, radix 16, no digit.\<close>

lemmas string_eval = trim_def strip.simps match_length_def white_space_def

lemma trim_examples:
  "trim ''True\<newline>'' = ''True''"
  "trim ([CHR 0xC2, CHR 0xA0] @ '' 80'' @ [CHR 0x09, CHR 0xE2, CHR 0x80, CHR 0xA8]) = ''80''"
  "trim ''a b'' = ''a b''"
  "trim '' '' = []"
  by (simp_all add: string_eval)

lemma parseInt_examples:
  "parseInt ''443'' = Finite 443"
  "parseInt ([CHR 0xC2, CHR 0xA0] @ ''  12px'') = Finite 12"
  "parseInt ''-7'' = Finite (- 7)"
  "parseInt ''0x1F'' = Finite 31"
  "parseInt ''abc'' = NaN"
  "parseInt [] = NaN"
  "parseInt ''9007199254740993'' = Finite 9007199254740992"
  by (simp_all add: parseInt_def strip.simps match_length_def white_space_def strip_sign_def
      strip_hex_prefix_def parse_digits_def is_digit_of_def digit_value_def digits_value_def
      double_eval)

lemma number_toString_of_nat: "n \<le> 2 ^ 53 \<Longrightarrow> number_toString env (Finite (of_nat n)) = nat_digits n"
proof -
  assume "n \<le> 2 ^ 53"
  then have "(of_nat n :: rat) \<le> of_nat (2 ^ 53)" by (subst of_nat_le_iff)
  then show ?thesis by (simp add: number_toString_def)
qed

subsection \<open>Port range expansion\<close>

text \<open>
  A counter that the increment does not change never leaves the loop by its condition:
  the loop ends when the array is full.
\<close>

lemma port_loop_exit:
  "\<not> (js_le i endP \<and> js_le i (js_add start (Finite 100))) \<Longrightarrow> port_loop env i endP start ports = Inr ports"
  by (subst port_loop.simps) auto

lemma port_loop_step:
  "js_le i endP \<and> js_le i (js_add start (Finite 100)) \<Longrightarrow> length ports < max_array_length
    \<Longrightarrow> port_loop env i endP start ports
        = port_loop env (js_add i (Finite 1)) endP start (ports @ [number_toString env i])"
  by (subst port_loop.simps) simp

lemma port_loop_stuck:
  assumes "js_add i (Finite 1) = i" and "js_le i endP" and "js_le i (js_add start (Finite 100))"
  shows "port_loop env i endP start ports = Inl invalid_array_length"
proof (induction "max_array_length - length ports" arbitrary: ports)
  case 0
  then show ?case using assms by (subst port_loop.simps) simp
next
  case (Suc n)
  then have "n = max_array_length - length (ports @ [number_toString env i])" by simp
  then have "port_loop env i endP start (ports @ [number_toString env i]) = Inl invalid_array_length"
    by (rule Suc.hyps(1))
  then show ?case using assms by (subst port_loop.simps) simp
qed

text \<open>With bounds below \<open>2 ^ 53\<close> the counter runs through the integers.\<close>

lemma js_add_of_nat:
  assumes "a + b < 2 ^ 53"
  shows "js_add (Finite (of_nat a)) (Finite (of_nat b)) = Finite (of_nat (a + b))"
proof -
  have "round_double (of_nat (a + b)) = Finite (of_nat (a + b))"
    using assms by (rule round_double_of_nat)
  moreover have "(of_nat a :: rat) + of_nat b = of_nat (a + b)" by simp
  ultimately show ?thesis by (simp only: js_add.simps)
qed

lemma port_loop_safe:
  assumes "s + 101 < 2 ^ 53" and "e < 2 ^ 53"
  shows "i \<le> s + 101 \<Longrightarrow> length ports + (Suc (min e (s + 100)) - i) \<le> max_array_length
    \<Longrightarrow> port_loop env (Finite (of_nat i)) (Finite (of_nat e)) (Finite (of_nat s)) ports
        = Inr (ports @ map nat_digits [i ..< Suc (min e (s + 100))])"
proof (induction "Suc (min e (s + 100)) - i" arbitrary: i ports)
  case 0
  then have le: "Suc (min e (s + 100)) \<le> i" by arith
  then have c: "\<not> (i \<le> e \<and> i \<le> s + 100)" by arith
  have "s + 100 < 2 ^ 53" using assms(1) by simp
  from js_add_of_nat[OF this]
  have h: "js_add (Finite (of_nat s)) (Finite 100) = Finite (of_nat (s + 100))"
    by (simp del: of_nat_add)
  have "\<not> (js_le (Finite (of_nat i)) (Finite (of_nat e))
          \<and> js_le (Finite (of_nat i)) (js_add (Finite (of_nat s)) (Finite 100)))"
    unfolding h using c by (simp del: of_nat_add)
  then have "port_loop env (Finite (of_nat i)) (Finite (of_nat e)) (Finite (of_nat s)) ports
      = Inr ports"
    by (rule port_loop_exit)
  moreover have "[i ..< Suc (min e (s + 100))] = []" using le by (rule upt_conv_Nil)
  ultimately show ?case by simp
next
  case (Suc k)
  then have c: "i \<le> e \<and> i \<le> s + 100" by arith
  have "s + 100 < 2 ^ 53" using assms(1) by simp
  from js_add_of_nat[OF this]
  have h: "js_add (Finite (of_nat s)) (Finite 100) = Finite (of_nat (s + 100))"
    by (simp del: of_nat_add)
  have "i + 1 < 2 ^ 53" using c assms(1) by simp
  from js_add_of_nat[OF this]
  have n: "js_add (Finite (of_nat i)) (Finite 1) = Finite (of_nat (Suc i))"
    by (simp only: of_nat_1 Suc_eq_plus1)
  have t: "number_toString env (Finite (of_nat i)) = nat_digits i"
    using c assms(1) by (intro number_toString_of_nat) simp
  have l: "length ports < max_array_length" using Suc.hyps(2) Suc.prems(2) by linarith
  have ih: "port_loop env (Finite (of_nat (Suc i))) (Finite (of_nat e)) (Finite (of_nat s))
          (ports @ [nat_digits i])
        = Inr ((ports @ [nat_digits i]) @ map nat_digits [Suc i ..< Suc (min e (s + 100))])"
    using Suc.hyps(2) Suc.prems c by (intro Suc.hyps(1)) auto
  have "i < Suc (min e (s + 100))" using c by arith
  then have u: "[i ..< Suc (min e (s + 100))] = i # [Suc i ..< Suc (min e (s + 100))]"
    by (rule upt_conv_Cons)
  have g: "js_le (Finite (of_nat i)) (Finite (of_nat e))
          \<and> js_le (Finite (of_nat i)) (js_add (Finite (of_nat s)) (Finite 100))"
    unfolding h using c by (simp del: of_nat_add)
  show ?case
    unfolding port_loop_step[OF g l] n t ih u by simp
qed

lemma expandPortRange_numerals:
  assumes "s \<le> e" and "e + 101 < 2 ^ 53"
  shows "expandPortRange env (nat_digits s @ ''-'' @ nat_digits e)
         = Inr (map (\<lambda>k. nat_digits (s + k)) [0 ..< min (e - s + 1) 101])"
proof -
  have b: "s + 101 < 2 ^ 53" "e < 2 ^ 53" "s < 2 ^ 53" using assms by simp_all
  have sp: "split_on CHR ''-'' (nat_digits s @ ''-'' @ nat_digits e) = [nat_digits s, nat_digits e]"
    by (simp add: split_on_append split_on_none nat_digits_no_minus)
  have ex: "expandPortRange env (nat_digits s @ ''-'' @ nat_digits e)
            = port_loop env (Finite (of_nat s)) (Finite (of_nat e)) (Finite (of_nat s)) []"
    unfolding expandPortRange_def sp
    by (simp add: trim_nat_digits parseInt_nat_digits round_double_of_nat[OF b(2)]
        round_double_of_nat[OF b(3)])
  have m: "Suc (min e (s + 100)) = s + min (e - s + 1) 101" using assms(1) by arith
  have "map (\<lambda>k. s + k) [0 ..< min (e - s + 1) 101] = [s ..< s + min (e - s + 1) 101]"
    using map_add_upt[of s "min (e - s + 1) 101"] by (simp only: add.commute)
  then have "[s ..< Suc (min e (s + 100))] = map (\<lambda>k. s + k) [0 ..< min (e - s + 1) 101]"
    by (simp only: m)
  moreover have "length ([]::string list) + (Suc (min e (s + 100)) - s) \<le> max_array_length"
    by (simp add: max_array_length_def)
  ultimately show ?thesis
    unfolding ex using port_loop_safe[OF b(1,2), of s "[]" env] by (simp add: comp_def)
qed

lemma digits_9007199254740992: "nat_digits 9007199254740992 = ''9007199254740992''"
  by (simp add: nat_digits.simps digit_char_def)

lemma parseInt_9007199254740992: "parseInt (trim ''9007199254740992'') = Finite 9007199254740992"
proof -
  have "parseInt (trim (nat_digits 9007199254740992)) = round_double (of_nat 9007199254740992)"
    by (simp only: trim_nat_digits parseInt_nat_digits)
  also have "\<dots> = Finite 9007199254740992" by (simp add: double_eval)
  finally show ?thesis by (simp only: digits_9007199254740992)
qed

lemma expandPortRange_9007199254740992:
  "expandPortRange env ''9007199254740992-9007199254740992'' = Inl invalid_array_length"
proof -
  have sp: "split_on CHR ''-'' ''9007199254740992-9007199254740992''
            = [''9007199254740992'', ''9007199254740992'']"
    by simp
  have "js_le (Finite 9007199254740992) (js_add (Finite 9007199254740992) (Finite 100))"
    by (simp add: double_eval)
  then have "port_loop env (Finite 9007199254740992) (Finite 9007199254740992)
               (Finite 9007199254740992) [] = Inl invalid_array_length"
    by (intro port_loop_stuck add_one_stuck) simp_all
  then show ?thesis
    unfolding expandPortRange_def sp by (simp add: parseInt_9007199254740992)
qed

text \<open>
  C1. The claim gives, for the specification \<open>9007199254740992-9007199254740992\<close>, whose
  bounds are equal, exactly one port. Both bounds parse to \<open>2 ^ 53\<close>, the increment \<open>i++\<close>
  leaves the counter at \<open>2 ^ 53\<close>, the condition of the loop stays true, and the same
  numeral is pushed until the array is full: \<open>expandPortRange\<close> returns no list, it throws.
  For bounds below \<open>2 ^ 53 - 101\<close> it returns what the claim says
  (\<open>expandPortRange_numerals\<close>).
\<close>

theorem expandPortRange_stuck:
  "parseInt (trim ''9007199254740992'') = Finite 9007199254740992
   \<and> js_add (Finite 9007199254740992) (Finite 1) = Finite 9007199254740992
   \<and> expandPortRange env ''9007199254740992-9007199254740992'' = Inl ''Invalid array length''"
  using parseInt_9007199254740992 add_one_stuck expandPortRange_9007199254740992[of env]
  by (simp add: invalid_array_length_def)

subsection \<open>Port scan\<close>

lemma probe_loop_map:
  "probe_loop env host ports =
     (map (\<lambda>port. Exec (powershell (probe_command host port))) ports, map (probe env host) ports)"
  by (induction ports) auto

lemma probe_cases: "probe env host port = open_line port \<or> probe env host port = closed_line port
     \<or> probe env host port = error_line port"
  by (simp add: probe_def split: sum.split)

lemma probe_error: "execAsync env (powershell (probe_command host port)) = Inl err
    \<Longrightarrow> probe env host port = error_line port"
  by (simp add: probe_def)

text \<open>
  When the sequence of ports is computed, one probe command is run for each of its first
  20 ports, in order, and no other command, and the report holds one line for each; when
  the computation throws, no command is run.
\<close>

lemma scanOpenPorts_cases:
  "scanOpenPorts env host portRange =
     (case port_sequence env (effective_port_range portRange) of
        Inr ports \<Rightarrow>
          (map (\<lambda>port. Exec (powershell (probe_command host port))) (take 20 ports),
           Inr (scan_header host (effective_port_range portRange)
                @ join ''\<newline>'' (map (probe env host) (take 20 ports))))
      | Inl message \<Rightarrow> ([], Inl (''Failed to scan ports on '' @ host @ '': '' @ message)))"
  by (simp add: scanOpenPorts_def Let_def probe_loop_map split: sum.split)

lemma scanOpenPorts_at_most_20: "length (fst (scanOpenPorts env host portRange)) \<le> 20"
  by (simp add: scanOpenPorts_cases split: sum.split)

lemma port_sequence_1_500:
  "port_sequence env ''1-500'' = Inr (map (\<lambda>k. nat_digits (1 + k)) [0 ..< 101])"
proof -
  have "(1::nat) \<le> 500" "(500::nat) + 101 < 2 ^ 53" by simp_all
  from expandPortRange_numerals[OF this, of env]
  have "expandPortRange env ''1-500'' = Inr (map (\<lambda>k. nat_digits (1 + k)) [0 ..< 101])"
    by (simp add: nat_digits.simps digit_char_def)
  then show ?thesis by (simp add: port_sequence_def includes_char_def)
qed

lemma scanOpenPorts_1_500:
  "fst (scanOpenPorts env host (Some ''1-500''))
     = map (\<lambda>k. Exec (powershell (probe_command host (nat_digits (1 + k))))) [0 ..< 20]"
  by (simp add: scanOpenPorts_cases effective_port_range_def port_sequence_1_500 take_map comp_def)

lemma scanOpenPorts_9007199254740992:
  "scanOpenPorts env host (Some ''9007199254740992-9007199254740992'')
     = ([], Inl (''Failed to scan ports on '' @ host @ '': Invalid array length''))"
  by (simp add: scanOpenPorts_cases effective_port_range_def port_sequence_def includes_char_def
      expandPortRange_9007199254740992 invalid_array_length_def)

text \<open>
  C2. Whatever the port specification, \<open>scanOpenPorts\<close> runs at most 20 commands. When the
  sequence of ports that the specification denotes is computed, it runs one probe command
  for each of the first 20 ports of the sequence, in the order of the sequence, and no
  other command, and it returns the report, which holds one line for each probed port, in
  the same order: the open, the closed/filtered or the timeout/error line of that port. A
  probe whose command fails yields the timeout/error line of its port, and the ports after
  it are probed all the same. When the expansion of a range throws (see C1), no port is
  probed and the request fails. For \<open>1-500\<close> the probed ports are 1, ..., 20.
\<close>

theorem scanOpenPorts_probes:
  "(case port_sequence env (effective_port_range portRange) of
      Inr ports \<Rightarrow>
        scanOpenPorts env host portRange =
          (map (\<lambda>port. Exec (powershell (probe_command host port))) (take 20 ports),
           Inr (''# Port Scan Results\<newline>\<newline>Target: '' @ host @ ''\<newline>Ports: ''
                @ effective_port_range portRange @ ''\<newline>\<newline>''
                @ join ''\<newline>'' (map (probe env host) (take 20 ports))))
    | Inl message \<Rightarrow>
        scanOpenPorts env host portRange =
          ([], Inl (''Failed to scan ports on '' @ host @ '': '' @ message)))
   \<and> length (fst (scanOpenPorts env host portRange)) \<le> 20
   \<and> (\<forall>port. probe env host port = check_mark @ '' Port '' @ port @ '': Open''
           \<or> probe env host port = cross_mark @ '' Port '' @ port @ '': Closed/Filtered''
           \<or> probe env host port = cross_mark @ '' Port '' @ port @ '': Timeout/Error'')
   \<and> (\<forall>port err. execAsync env (powershell (probe_command host port)) = Inl err
         \<longrightarrow> probe env host port = cross_mark @ '' Port '' @ port @ '': Timeout/Error'')
   \<and> port_sequence env (effective_port_range (Some ''1-500''))
       = Inr (map (\<lambda>k. nat_digits (1 + k)) [0 ..< 101])
   \<and> fst (scanOpenPorts env host (Some ''1-500''))
       = map (\<lambda>k. Exec (powershell (probe_command host (nat_digits (1 + k))))) [0 ..< 20]"
proof (intro conjI allI impI)
  show "case port_sequence env (effective_port_range portRange) of
      Inr ports \<Rightarrow>
        scanOpenPorts env host portRange =
          (map (\<lambda>port. Exec (powershell (probe_command host port))) (take 20 ports),
           Inr (''# Port Scan Results\<newline>\<newline>Target: '' @ host @ ''\<newline>Ports: ''
                @ effective_port_range portRange @ ''\<newline>\<newline>''
                @ join ''\<newline>'' (map (probe env host) (take 20 ports))))
    | Inl message \<Rightarrow>
        scanOpenPorts env host portRange =
          ([], Inl (''Failed to scan ports on '' @ host @ '': '' @ message))"
    by (simp add: scanOpenPorts_cases scan_header_def split: sum.split)
  show "length (fst (scanOpenPorts env host portRange)) \<le> 20"
    by (rule scanOpenPorts_at_most_20)
  show "port_sequence env (effective_port_range (Some ''1-500''))
       = Inr (map (\<lambda>k. nat_digits (1 + k)) [0 ..< 101])"
    by (simp add: effective_port_range_def port_sequence_1_500)
  show "fst (scanOpenPorts env host (Some ''1-500''))
       = map (\<lambda>k. Exec (powershell (probe_command host (nat_digits (1 + k))))) [0 ..< 20]"
    by (rule scanOpenPorts_1_500)
next
  fix port
  show "probe env host port = check_mark @ '' Port '' @ port @ '': Open''
           \<or> probe env host port = cross_mark @ '' Port '' @ port @ '': Closed/Filtered''
           \<or> probe env host port = cross_mark @ '' Port '' @ port @ '': Timeout/Error''"
    using probe_cases[of env host port] by (simp add: open_line_def closed_line_def error_line_def)
next
  fix port err
  assume "execAsync env (powershell (probe_command host port)) = Inl err"
  then show "probe env host port = cross_mark @ '' Port '' @ port @ '': Timeout/Error''"
    by (simp add: probe_error error_line_def)
qed

theorem scanOpenPorts_probes_witness:
  "fst (scanOpenPorts demo_env ''localhost'' (Some ''1-500''))
     = map (\<lambda>port. Exec (powershell (probe_command ''localhost'' port)))
         ([''1'', ''2'', ''3'', ''4'', ''5''] @ [''6'', ''7'', ''8'', ''9'', ''10'']
          @ [''11'', ''12'', ''13'', ''14'', ''15''] @ [''16'', ''17'', ''18'', ''19'', ''20''])
   \<and> execAsync demo_env (powershell (probe_command ''localhost'' ''2'')) = Inl ''Command failed''
   \<and> probe demo_env ''localhost'' ''2'' = cross_mark @ '' Port 2: Timeout/Error''
   \<and> scanOpenPorts demo_env ''localhost'' (Some ''3, 2 ,9'') =
       ([Exec (powershell (probe_command ''localhost'' ''3'')),
         Exec (powershell (probe_command ''localhost'' ''2'')),
         Exec (powershell (probe_command ''localhost'' ''9''))],
        Inr (''# Port Scan Results\<newline>\<newline>Target: localhost\<newline>Ports: 3, 2 ,9\<newline>\<newline>''
             @ check_mark @ '' Port 3: Open\<newline>''
             @ cross_mark @ '' Port 2: Timeout/Error\<newline>''
             @ cross_mark @ '' Port 9: Closed/Filtered''))
   \<and> scanOpenPorts demo_env ''localhost'' (Some ''9007199254740992-9007199254740992'')
     = ([], Inl ''Failed to scan ports on localhost: Invalid array length'')"
proof -
  note t = scanOpenPorts_probes[where env = demo_env and host = "''localhost''"]
  have f: "execAsync demo_env (powershell (probe_command ''localhost'' ''2'')) = Inl ''Command failed''"
    by (simp add: demo_env_def demo_exec_def)
  from t[where portRange = "Some ''1-500''"]
  have "fst (scanOpenPorts demo_env ''localhost'' (Some ''1-500''))
       = map (\<lambda>k. Exec (powershell (probe_command ''localhost'' (nat_digits (1 + k))))) [0 ..< 20]"
    by blast
  moreover have "[0 ..< 20] = [0, 1, 2, 3, 4, 5, 6, 7, 8, 9, 10, 11, 12, 13, 14, 15, 16, 17, 18, 19 :: nat]"
    by (simp add: upt_conv_Cons)
  ultimately have 1: "fst (scanOpenPorts demo_env ''localhost'' (Some ''1-500''))
     = map (\<lambda>port. Exec (powershell (probe_command ''localhost'' port)))
         ([''1'', ''2'', ''3'', ''4'', ''5''] @ [''6'', ''7'', ''8'', ''9'', ''10'']
          @ [''11'', ''12'', ''13'', ''14'', ''15''] @ [''16'', ''17'', ''18'', ''19'', ''20''])"
    by (simp add: nat_digits.simps digit_char_def)
  from t[where portRange = None] f
  have 2: "probe demo_env ''localhost'' ''2'' = cross_mark @ '' Port 2: Timeout/Error''"
    by simp
  have s3: "port_sequence demo_env (effective_port_range (Some ''3, 2 ,9'')) = Inr [''3'', ''2'', ''9'']"
    by (simp add: effective_port_range_def port_sequence_def includes_char_def string_eval)
  from t[where portRange = "Some ''3, 2 ,9''"]
  have 3: "scanOpenPorts demo_env ''localhost'' (Some ''3, 2 ,9'') =
       ([Exec (powershell (probe_command ''localhost'' ''3'')),
         Exec (powershell (probe_command ''localhost'' ''2'')),
         Exec (powershell (probe_command ''localhost'' ''9''))],
        Inr (''# Port Scan Results\<newline>\<newline>Target: localhost\<newline>Ports: 3, 2 ,9\<newline>\<newline>''
             @ check_mark @ '' Port 3: Open\<newline>''
             @ cross_mark @ '' Port 2: Timeout/Error\<newline>''
             @ cross_mark @ '' Port 9: Closed/Filtered''))"
    unfolding s3
    by (simp add: effective_port_range_def string_eval probe_def demo_env_def demo_exec_def
        powershell_def probe_command_def quote_def open_line_def closed_line_def error_line_def)
  have s4: "port_sequence demo_env (effective_port_range (Some ''9007199254740992-9007199254740992''))
      = Inl ''Invalid array length''"
    by (simp add: effective_port_range_def port_sequence_def includes_char_def
        expandPortRange_9007199254740992 invalid_array_length_def)
  from t[where portRange = "Some ''9007199254740992-9007199254740992''"]
  have 4: "scanOpenPorts demo_env ''localhost'' (Some ''9007199254740992-9007199254740992'')
     = ([], Inl ''Failed to scan ports on localhost: Invalid array length'')"
    unfolding s4 by simp
  from 1 f 2 3 4 show ?thesis by (intro conjI)
qed

subsection \<open>Byte-size formatting\<close>

lemma scale_loop_step:
  "sz \<ge> 1024 \<and> u < length units - 1 \<Longrightarrow> scale_loop sz u = scale_loop (sz / 1024) (u + 1)"
  by (subst scale_loop.simps) simp

lemma scale_loop_stop:
  "\<not> (sz \<ge> 1024 \<and> u < length units - 1) \<Longrightarrow> scale_loop sz u = (sz, u)"
  by (subst scale_loop.simps) auto

lemma scale_loop_result:
  "scale_loop x u = (y, v) \<Longrightarrow> u \<le> 4 \<Longrightarrow>
     \<exists>k. v = u + k \<and> y = x / 1024 ^ k \<and> v \<le> 4 \<and> (\<forall>j<k. 1024 \<le> x / 1024 ^ j) \<and> (v < 4 \<longrightarrow> y < 1024)"
proof (induction x u arbitrary: y v rule: scale_loop.induct)
  case (1 sz unitIndex)
  show ?case
  proof (cases "sz \<ge> 1024 \<and> unitIndex < length units - 1")
    case True
    then have u: "unitIndex + 1 \<le> 4" by (simp add: units_def)
    from "1.prems" have "scale_loop (sz / 1024) (unitIndex + 1) = (y, v)"
      by (simp add: scale_loop_step[OF True])
    from "1.IH"[OF True this u] obtain k where k: "v = unitIndex + 1 + k" "y = sz / 1024 / 1024 ^ k"
      "v \<le> 4" "\<forall>j<k. 1024 \<le> sz / 1024 / 1024 ^ j" "v < 4 \<longrightarrow> y < 1024"
      by blast
    have "\<forall>j<Suc k. 1024 \<le> sz / 1024 ^ j"
    proof (intro allI impI)
      fix j assume "j < Suc k"
      show "1024 \<le> sz / 1024 ^ j"
      proof (cases j)
        case 0
        with True show ?thesis by simp
      next
        case (Suc j')
        with \<open>j < Suc k\<close> k(4) have "1024 \<le> sz / 1024 / 1024 ^ j'" by simp
        with Suc show ?thesis by simp
      qed
    qed
    with k show ?thesis by (intro exI[of _ "Suc k"]) simp
  next
    case False
    with "1.prems" have yv: "y = sz" "v = unitIndex"
      by (simp_all add: scale_loop_stop)
    from False "1.prems"(2) have "unitIndex < 4 \<longrightarrow> sz < 1024"
      by (auto simp: units_def)
    with yv "1.prems"(2) show ?thesis by (intro exI[of _ 0]) simp
  qed
qed

lemma unit_index_props:
  "scale_loop (of_nat bytes) 0 = (scaled bytes (unit_index bytes), unit_index bytes)"
  "unit_index bytes \<le> 4"
  "\<forall>j < unit_index bytes. 1024 \<le> scaled bytes j"
  "unit_index bytes < 4 \<longrightarrow> scaled bytes (unit_index bytes) < 1024"
proof -
  obtain y v where r: "scale_loop (of_nat bytes) 0 = (y, v)" by (cases "scale_loop (of_nat bytes) 0")
  from scale_loop_result[OF r] obtain k where k: "v = k" "y = of_nat bytes / 1024 ^ k" "v \<le> 4"
    "\<forall>j<k. 1024 \<le> (of_nat bytes :: rat) / 1024 ^ j" "v < 4 \<longrightarrow> y < 1024" by auto
  have v: "unit_index bytes = v" by (simp add: unit_index_def r)
  show "scale_loop (of_nat bytes) 0 = (scaled bytes (unit_index bytes), unit_index bytes)"
    using k r by (simp add: v scaled_def)
  show "unit_index bytes \<le> 4" using k by (simp add: v)
  show "\<forall>j < unit_index bytes. 1024 \<le> scaled bytes j" using k by (simp add: v scaled_def)
  show "unit_index bytes < 4 \<longrightarrow> scaled bytes (unit_index bytes) < 1024"
    using k by (simp add: v scaled_def)
qed

lemma scaled_below:
  assumes "bytes < 1024 ^ 5"
  shows "scaled bytes (unit_index bytes) < 1024"
proof (cases "unit_index bytes < 4")
  case True
  then show ?thesis using unit_index_props(4) by blast
next
  case False
  with unit_index_props(2)[of bytes] have k: "unit_index bytes = 4" by simp
  have "(of_nat bytes :: rat) < of_nat (1024 ^ 5)" using assms by (simp only: of_nat_less_iff)
  then have "(of_nat bytes :: rat) < 1024 * 1024 ^ 4" by simp
  then show ?thesis by (simp add: scaled_def k divide_less_eq)
qed

lemma unit_index_top:
  assumes "1024 ^ 5 \<le> bytes"
  shows "unit_index bytes = 4"
proof (rule ccontr)
  assume "unit_index bytes \<noteq> 4"
  with unit_index_props(2)[of bytes] have lt: "unit_index bytes < 4" by simp
  then have b: "scaled bytes (unit_index bytes) < 1024" using unit_index_props(4) by blast
  have "(1024::rat) ^ unit_index bytes \<le> 1024 ^ 4"
    using lt by (intro power_increasing) simp_all
  moreover have "(of_nat bytes :: rat) < 1024 * 1024 ^ unit_index bytes"
    using b by (simp add: scaled_def divide_less_eq)
  ultimately have "(of_nat bytes :: rat) < 1024 * 1024 ^ 4"
    by linarith
  then have "(of_nat bytes :: rat) < of_nat (1024 ^ 5)" by simp
  then have "bytes < 1024 ^ 5" by (simp only: of_nat_less_iff)
  with assms show False by simp
qed

lemma two_decimals_toFixed2:
  assumes "0 \<le> x"
  shows "two_decimals (toFixed2 x)"
proof -
  define n where "n = nat \<lfloor>\<bar>x\<bar> * 100 + 1 / 2\<rfloor>"
  define ds where "ds = nat_digits (n div 100)"
  have s: "toFixed2 x = ds @ ''.'' @ [digit_char (n mod 100 div 10), digit_char (n mod 10)]"
    using assms by (simp add: toFixed2_def Let_def n_def ds_def)
  have ne: "Suc 0 \<le> length ds"
    using nat_digits_nonempty[of "n div 100"] by (cases ds) (simp_all add: ds_def)
  have d: "list_all dec_char ds"
    unfolding list_all_iff ds_def using nat_digits_dec by blast
  have d1: "dec_char (digit_char (n mod 100 div 10))"
    unfolding dec_char_def by (rule exI[of _ "n mod 100 div 10"]) simp
  have d2: "dec_char (digit_char (n mod 10))"
    unfolding dec_char_def by (rule exI[of _ "n mod 10"]) simp
  show ?thesis
    using ne d d1 d2 by (simp add: two_decimals_def s nth_append)
qed

lemmas format_eval = formatBytes_def formatFileSize_def scale_loop.simps units_def toFixed2_def Let_def
  floor_numeral_div nat_digits.simps digit_char_def unit_index_def scaled_def

lemma formatBytes_examples:
  "formatBytes 1536 = ''1.50 KB''" "formatBytes 1073741824 = ''1.00 GB''"
  by (simp_all add: format_eval)

lemma formatFileSize_eq: "formatFileSize bytes = formatBytes bytes"
  by (simp add: formatFileSize_def formatBytes_def)

lemma formatBytes_unit_index:
  "formatBytes bytes = toFixed2 (scaled bytes (unit_index bytes)) @ '' '' @ units ! unit_index bytes"
  by (simp add: formatBytes_def unit_index_props(1))

lemma scaled_nonneg: "0 \<le> scaled bytes k"
  by (simp add: scaled_def)

text \<open>
  C6 (amended). For every byte count the formatter selects the smallest unit among B, KB,
  MB, GB, TB in which the scaled value is below 1024 (every smaller unit has a scaled
  value of at least 1024), and TB for a count of \<open>1024 ^ 5\<close> or more, where the scaled
  value is not below 1024; it renders the scaled value with exactly two decimal places,
  followed by a space and the unit. Both formatters agree, \<open>formatBytes 1536\<close> is
  \<open>1.50 KB\<close> and \<open>formatBytes 1073741824\<close> is \<open>1.00 GB\<close>.
\<close>

theorem formatBytes_unit:
  "formatBytes bytes = toFixed2 (scaled bytes (unit_index bytes)) @ '' '' @ units ! unit_index bytes
   \<and> formatFileSize bytes = formatBytes bytes
   \<and> unit_index bytes < length units
   \<and> (\<forall>j < unit_index bytes. 1024 \<le> scaled bytes j)
   \<and> (bytes < 1024 ^ 5 \<longrightarrow> scaled bytes (unit_index bytes) < 1024)
   \<and> (1024 ^ 5 \<le> bytes \<longrightarrow> unit_index bytes = 4)
   \<and> two_decimals (toFixed2 (scaled bytes (unit_index bytes)))
   \<and> formatBytes 1536 = ''1.50 KB'' \<and> formatBytes 1073741824 = ''1.00 GB''"
proof -
  have "unit_index bytes < length units"
    using unit_index_props(2)[of bytes] by (simp add: units_def)
  then show ?thesis
    using formatBytes_unit_index formatFileSize_eq unit_index_props(3) scaled_below unit_index_top
      two_decimals_toFixed2[OF scaled_nonneg] formatBytes_examples
    by blast
qed

theorem formatBytes_unit_witness:
  "formatBytes 1536 = ''1.50 KB'' \<and> formatFileSize 1536 = ''1.50 KB'' \<and> unit_index 1536 = 1
   \<and> (1536::nat) < 1024 ^ 5 \<and> scaled 1536 1 < 1024 \<and> 1024 \<le> scaled 1536 0
   \<and> (1024::nat) ^ 5 \<le> 1024 ^ 5 \<and> unit_index (1024 ^ 5) = 4"
proof -
  have k: "unit_index 1536 = 1" by (simp add: format_eval)
  have lt: "(1536::nat) < 1024 ^ 5" by simp
  have le: "(1024::nat) ^ 5 \<le> 1024 ^ 5" by simp
  have z: "(0::nat) < unit_index 1536" by (simp add: k)
  from formatBytes_unit[of 1536] lt z k
  have "formatBytes 1536 = ''1.50 KB''" "formatFileSize 1536 = formatBytes 1536"
    "scaled 1536 1 < 1024" "1024 \<le> scaled 1536 0"
    by auto
  moreover from formatBytes_unit[of "1024 ^ 5"] le have "unit_index (1024 ^ 5) = 4" by blast
  ultimately show ?thesis using k lt le by simp
qed

text \<open>
  As stated, the claim fails: for 500 bytes the formatter selects B although the scaled
  value is below 1024 in the larger units too, and for \<open>1024 ^ 5\<close> bytes the selected unit
  is TB with a scaled value that is not below 1024.
\<close>

theorem formatBytes_unit_counterexample:
  "formatBytes 500 = ''500.00 B'' \<and> unit_index 500 = 0 \<and> scaled 500 4 < 1024
   \<and> formatBytes (1024 ^ 5) = ''1024.00 TB'' \<and> unit_index (1024 ^ 5) = 4
   \<and> \<not> scaled (1024 ^ 5) (unit_index (1024 ^ 5)) < 1024"
  by (simp add: format_eval)

subsection \<open>Directory listing\<close>

lemma listDirectory_failed:
  "fs_readdir env p = Inl m \<Longrightarrow>
     listDirectory (Suc fuel) env p r d = Some ([Readdir p], Inl (cannot_list p m))"
  by (simp add: listDirectory.simps)

lemma listDirectory_flat:
  "fs_readdir env p = Inr items \<Longrightarrow> \<not> (r \<and> js_lt (Finite 0) d) \<Longrightarrow>
     listDirectory (Suc fuel) env p r d = Some (listing_events env p items, Inr (listing_text env p items))"
  by (auto simp: listDirectory.simps)

lemma those_map_Some: "\<forall>x \<in> set xs. f x = Some (g x) \<Longrightarrow> those (map f xs) = Some (map g xs)"
  by (induction xs) auto

lemma those_map_None: "x \<in> set xs \<Longrightarrow> f x = None \<Longrightarrow> those (map f xs) = None"
  by (induction xs) (auto split: option.splits)

lemma zip_map_self: "zip xs (map f xs) = map (\<lambda>x. (x, f x)) xs"
  by (induction xs) auto

text \<open>
  A recursive walk returns when its nested calls do, with their operations and their
  listings in the order of the enumeration.
\<close>

lemma listDirectory_rec:
  assumes "fs_readdir env p = Inr items" and "r" and "js_lt (Finite 0) d"
    and "\<forall>item \<in> set (filter isDirectory items).
           listDirectory fuel env (path_join env p (d_name item)) True (js_sub d (Finite 1))
             = Some (nested item)"
  shows "listDirectory (Suc fuel) env p r d =
       Some (listing_events env p items
             @ map (\<lambda>item. Call (path_join env p (d_name item)) True (js_sub d (Finite 1))
                      (fst (nested item)))
                 (filter isDirectory items),
             Inr (listing_text env p items @ recursive_header
                  @ concat (map (\<lambda>item. subdirectory_section (d_name item) (snd (nested item)))
                              (filter isDirectory items))))"
proof -
  have "those (map (\<lambda>item. listDirectory fuel env (path_join env p (d_name item)) True
                             (js_sub d (Finite 1)))
                (filter isDirectory items))
        = Some (map nested (filter isDirectory items))"
    using assms(4) by (rule those_map_Some)
  then show ?thesis
    using assms(1-3) by (simp add: listDirectory.simps Let_def zip_map_self comp_def)
qed

lemma listDirectory_stuck:
  assumes "fs_readdir env p = Inr items" and "r" and "js_lt (Finite 0) d"
    and "item \<in> set (filter isDirectory items)"
    and "listDirectory fuel env (path_join env p (d_name item)) True (js_sub d (Finite 1)) = None"
  shows "listDirectory (Suc fuel) env p r d = None"
proof -
  have "those (map (\<lambda>item. listDirectory fuel env (path_join env p (d_name item)) True
                             (js_sub d (Finite 1)))
                (filter isDirectory items)) = None"
    using assms(4,5) by (rule those_map_None)
  then show ?thesis using assms(1-3) by (simp add: listDirectory.simps)
qed

lemma listDirectory_Inr:
  assumes "fs_readdir env p = Inr items" and "listDirectory fuel env p r d = Some res"
  shows "\<exists>rest. snd res = Inr (listing_text env p items @ rest)
                \<and> (r \<and> js_lt (Finite 0) d \<or> rest = [])"
proof (cases fuel)
  case 0
  with assms(2) show ?thesis by (simp add: listDirectory.simps)
next
  case (Suc n)
  with assms show ?thesis
    by (auto simp: listDirectory.simps Let_def split: option.splits if_splits)
qed

text \<open>With no positive depth the walker makes no nested call, whatever the flag.\<close>

lemma listDirectory_no_recursion:
  assumes "\<not> js_lt (Finite 0) d"
  shows "listDirectory fuel env p r d = listDirectory fuel env p False d"
    and "\<exists>res. listDirectory (Suc fuel) env p r d = Some res \<and> \<not> list_ex is_Call (fst res)"
proof -
  show "listDirectory fuel env p r d = listDirectory fuel env p False d"
    using assms by (cases fuel) (simp_all add: listDirectory.simps split: sum.splits)
  show "\<exists>res. listDirectory (Suc fuel) env p r d = Some res \<and> \<not> list_ex is_Call (fst res)"
    using assms
    by (cases "fs_readdir env p")
       (auto simp: listDirectory.simps list_ex_iff is_Call_def listing_events_def)
qed

text \<open>
  Subtracting 1 from a positive depth up to \<open>2 ^ 53\<close> gives a depth that is lower by 1/2 at
  least.
\<close>

lemma js_sub_one:
  assumes "0 < x" and "x \<le> 2 ^ 53"
  shows "\<exists>y. js_sub (Finite x) (Finite 1) = Finite y \<and> y \<le> x - 1 / 2"
proof (cases "x = 1")
  case True
  then show ?thesis by (simp add: js_sub_def round_double_def)
next
  case False
  then have "x - 1 \<noteq> 0" by simp
  moreover have "\<bar>x - 1\<bar> < 2 ^ 53" using assms by (simp add: abs_less_iff)
  ultimately obtain y where y: "round_double (x - 1) = Finite y" and "\<bar>y - (x - 1)\<bar> \<le> 1 / 2"
    using round_double_near by blast
  then have "y \<le> x - 1 / 2" by linarith
  with y show ?thesis by (simp add: js_sub_def)
qed

text \<open>
  A walk with a depth up to \<open>2 ^ 53\<close> returns, in every environment, when it is given fuel
  for twice the depth.
\<close>

lemma listDirectory_returns:
  "x \<le> 2 ^ 53 \<Longrightarrow> nat \<lceil>2 * x\<rceil> < fuel \<Longrightarrow> \<exists>res. listDirectory fuel env p r (Finite x) = Some res"
proof (induction fuel arbitrary: p r x)
  case 0
  then show ?case by simp
next
  case (Suc fuel)
  show ?case
  proof (cases "fs_readdir env p")
    case (Inl m)
    then show ?thesis by (simp add: listDirectory_failed)
  next
    case (Inr items)
    show ?thesis
    proof (cases "r \<and> js_lt (Finite 0) (Finite x)")
      case False
      with Inr show ?thesis by (simp add: listDirectory_flat)
    next
      case True
      then have pos: "0 < x" by simp
      from js_sub_one[OF pos Suc.prems(1)]
      obtain y where y: "js_sub (Finite x) (Finite 1) = Finite y" "y \<le> x - 1 / 2" by blast
      have "y \<le> 2 ^ 53" using y(2) Suc.prems(1) by linarith
      moreover have "nat \<lceil>2 * y\<rceil> < fuel"
      proof -
        have "2 * y \<le> 2 * x - 1" using y(2) by linarith
        then have "\<lceil>2 * y\<rceil> \<le> \<lceil>2 * x - 1\<rceil>" by (rule ceiling_mono)
        then have "\<lceil>2 * y\<rceil> \<le> \<lceil>2 * x\<rceil> - 1" by simp
        moreover have "0 < \<lceil>2 * x\<rceil>" using pos by simp
        ultimately show ?thesis using Suc.prems(2) by linarith
      qed
      ultimately have "\<exists>res. listDirectory fuel env q True (Finite y) = Some res" for q
        by (rule Suc.IH)
      then have "\<forall>item \<in> set (filter isDirectory items).
          listDirectory fuel env (path_join env p (d_name item)) True (js_sub (Finite x) (Finite 1))
            = Some (the (listDirectory fuel env (path_join env p (d_name item)) True (Finite y)))"
        unfolding y(1) by (metis option.sel)
      from listDirectory_rec[OF Inr _ _ this] True show ?thesis by blast
    qed
  qed
qed

lemmas demo_defs = demo_env_def demo_readdir_def demo_stat_def demo_exec_def data_dir_def mixed_dir_def
  loop_dir_def big_file_def sub_def entry_def backslash_def isDirectory_def isFile_def

lemma foldl_push_entry:
  "foldl (push_entry env p) (ds, fs) items =
     (ds @ map (entry_line env p) (filter isDirectory items),
      fs @ map (entry_line env p) (filter (\<lambda>i. \<not> isDirectory i) items))"
proof (induction items arbitrary: ds fs)
  case Nil
  show ?case by simp
next
  case (Cons item items)
  have "push_entry env p (ds, fs) item =
          (if isDirectory item then (ds @ [entry_line env p item], fs)
           else (ds, fs @ [entry_line env p item]))"
    by (auto simp: push_entry_def entry_line_def Let_def split: sum.split)
  then show ?case by (simp add: Cons.IH)
qed

lemma listing_text_sections:
  "listing_text env p items =
     ''# Directory Listing: '' @ p @ ''\<newline>\<newline>## Directories:\<newline>''
     @ join ''\<newline>'' (map (entry_line env p) (filter isDirectory items))
     @ ''\<newline>\<newline>## Files:\<newline>''
     @ join ''\<newline>'' (map (entry_line env p) (filter (\<lambda>i. \<not> isDirectory i) items))"
  using foldl_push_entry[of env p "[]" "[]" items] by (simp add: listing_text_def)

lemma entry_line_denied:
  "fs_stat env (path_join env p (d_name item)) = Inl message \<Longrightarrow>
     entry_line env p item = (if isDirectory item then directory_denied (d_name item)
                              else file_denied (d_name item))"
  by (simp add: entry_line_def)

lemma entry_line_ok:
  "fs_stat env (path_join env p (d_name item)) = Inr stats \<Longrightarrow>
     entry_line env p item =
       (if isDirectory item then directory_line (d_name item) (iso_date (st_mtime stats))
        else file_line (d_name item) (if isFile item then formatFileSize (st_size stats) else [])
               (iso_date (st_mtime stats)))"
  by (simp add: entry_line_def)

lemma subdirectory_section_cases:
  "subdirectory_section name subResult =
     (case subResult of
        Inr listing \<Rightarrow> ''\<newline>### '' @ name @ ''/\<newline>'' @ listing @ ''\<newline>''
      | Inl message \<Rightarrow> ''\<newline>### '' @ name @ ''/ (access denied)\<newline>'')"
  by (simp add: subdirectory_section_def)

lemmas text_defs = listing_text_sections entry_line_def directory_line_def file_line_def
  directory_denied_def file_denied_def iso_date_def subdirectory_section_def

lemma demo_notes_size: "formatFileSize 1536 = ''1.50 KB''"
  by (simp add: format_eval)

lemma demo_zero_depth: "js_sub (Finite 1) (Finite 1) = Finite 0"
  by (simp add: js_sub_def round_double_def)

text \<open>
  The directory \<open>loop\<close> has a subdirectory at every level: a walk whose depth does not
  decrease never returns on it.
\<close>

lemma loop_readdir: "prefix loop_dir p \<Longrightarrow> fs_readdir demo_env p = Inr [entry ''again'' DirectoryEntry]"
  by (auto simp: demo_defs prefix_def)

lemma loop_never_returns:
  "prefix loop_dir p \<Longrightarrow> listDirectory fuel demo_env p True (Finite 9007199254740996) = None"
proof (induction fuel arbitrary: p)
  case 0
  show ?case by (simp add: listDirectory.simps)
next
  case (Suc fuel)
  have "prefix loop_dir (path_join demo_env p (d_name (entry ''again'' DirectoryEntry)))"
    using Suc.prems by (simp add: demo_env_def sub_def entry_def prefix_order.trans)
  then have n: "listDirectory fuel demo_env (path_join demo_env p (d_name (entry ''again'' DirectoryEntry)))
               True (js_sub (Finite 9007199254740996) (Finite 1)) = None"
    unfolding sub_one_stuck by (rule Suc.IH)
  have m: "entry ''again'' DirectoryEntry \<in> set (filter isDirectory [entry ''again'' DirectoryEntry])"
    by (simp add: entry_def isDirectory_def)
  have d: "js_lt (Finite 0) (Finite 9007199254740996)" by simp
  from listDirectory_stuck[OF loop_readdir[OF Suc.prems] TrueI d m n] show ?case .
qed

text \<open>
  C3. The claim gives a strictly decreasing depth and a walk that returns for every
  initial \<open>maxDepth\<close>, so also for 9007199254740996, which is \<open>2 ^ 53 + 4\<close>. There the
  subtraction \<open>maxDepth - 1\<close> of doubles gives \<open>maxDepth\<close> back: on the directory \<open>mixed\<close> the
  nested calls are made with the depth 9007199254740996 of their caller, and on the
  directory \<open>loop\<close>, where every level has a subdirectory, the walk does not return
  whatever the fuel, neither as a call of \<open>listDirectory\<close> nor as a request to the tool.
  With no positive depth no nested call is made (\<open>listDirectory_no_recursion\<close>), and with a
  depth up to \<open>2 ^ 53\<close> the depth decreases and the walk returns (\<open>js_sub_one\<close>,
  \<open>listDirectory_returns\<close>).
\<close>

theorem listDirectory_depth_stuck:
  "js_sub (Finite 9007199254740996) (Finite 1) = Finite 9007199254740996
   \<and> map_option fst (listDirectory (Suc (Suc fuel)) demo_env mixed_dir True (Finite 9007199254740996))
     = Some [Readdir mixed_dir, Stat (sub mixed_dir ''secret.txt''), Stat (sub mixed_dir ''ok.txt''),
             Stat (sub mixed_dir ''locked''), Stat (sub mixed_dir ''open''),
             Call (sub mixed_dir ''locked'') True (Finite 9007199254740996)
               [Readdir (sub mixed_dir ''locked'')],
             Call (sub mixed_dir ''open'') True (Finite 9007199254740996)
               [Readdir (sub mixed_dir ''open'')]]
   \<and> listDirectory fuel demo_env loop_dir True (Finite 9007199254740996) = None
   \<and> filesystem_run fuel demo_env no_other (walk_request loop_dir (Finite 9007199254740996)) = None"
proof (intro conjI)
  show "js_sub (Finite 9007199254740996) (Finite 1) = Finite 9007199254740996"
    by (rule sub_one_stuck)
  show "map_option fst (listDirectory (Suc (Suc fuel)) demo_env mixed_dir True (Finite 9007199254740996))
     = Some [Readdir mixed_dir, Stat (sub mixed_dir ''secret.txt''), Stat (sub mixed_dir ''ok.txt''),
             Stat (sub mixed_dir ''locked''), Stat (sub mixed_dir ''open''),
             Call (sub mixed_dir ''locked'') True (Finite 9007199254740996)
               [Readdir (sub mixed_dir ''locked'')],
             Call (sub mixed_dir ''open'') True (Finite 9007199254740996)
               [Readdir (sub mixed_dir ''open'')]]"
    by (simp add: listDirectory.simps sub_one_stuck demo_defs listing_events_def)
  show l: "listDirectory fuel demo_env loop_dir True (Finite 9007199254740996) = None"
    by (rule loop_never_returns) simp
  have "loop_dir \<noteq> []" by (simp add: loop_dir_def)
  then show "filesystem_run fuel demo_env no_other (walk_request loop_dir (Finite 9007199254740996)) = None"
    by (simp add: filesystem_run_def walk_request_def no_args_def truthy_string_def l)
qed

lemma list_request_succeeds:
  assumes "fs_readdir env dirPath = Inr items"
    and "arg_action a = Some ''list_directory''" and "arg_path a = Some dirPath" and "dirPath \<noteq> []"
    and "filesystem_run fuel env other a = Some resp"
  shows "\<not> resp_isError (snd resp)"
proof -
  from assms(2-5) obtain res
    where res: "listDirectory fuel env dirPath
                  (case arg_recursive a of None \<Rightarrow> False | Some r \<Rightarrow> r)
                  (case arg_max_depth a of None \<Rightarrow> Finite 3 | Some d \<Rightarrow> d) = Some res"
      and resp: "resp = respond (fs_cross_mark @ '' File system operation failed: '') res"
    by (auto simp: filesystem_run_def truthy_string_def)
  from listDirectory_Inr[OF assms(1) res] obtain listing where "snd res = Inr listing" by blast
  then show ?thesis unfolding resp by (cases res) (simp add: respond_def)
qed

text \<open>
  C4. When the directory can be enumerated, a walk that does not recurse returns exactly
  the heading and the two sections, with one line for every entry, directories and files
  each in the order of the enumeration: the line of an entry whose \<open>stat\<close> fails is its
  name with the marker \<open>(access denied)\<close>, the line of any other entry its name with its
  date (and size). A recursive walk returns, after the same text, one section for every
  subdirectory, in order: the nested listing under its heading, or the heading with
  \<open>(access denied)\<close> when the nested call fails, as it does when the subdirectory cannot be
  enumerated. A walk that returns never fails, and a walk with a depth up to \<open>2 ^ 53\<close>
  returns when given fuel for twice the depth; the response to a \<open>list_directory\<close> request
  for the directory is not an error response.
\<close>

theorem listDirectory_partial_failure:
  assumes "fs_readdir env dirPath = Inr items"
  shows "(\<not> (recursive \<and> js_lt (Finite 0) maxDepth) \<longrightarrow>
      listDirectory (Suc fuel) env dirPath recursive maxDepth =
        Some (listing_events env dirPath items,
              Inr (''# Directory Listing: '' @ dirPath @ ''\<newline>\<newline>## Directories:\<newline>''
                   @ join ''\<newline>'' (map (entry_line env dirPath) (filter isDirectory items))
                   @ ''\<newline>\<newline>## Files:\<newline>''
                   @ join ''\<newline>'' (map (entry_line env dirPath) (filter (\<lambda>i. \<not> isDirectory i) items)))))
    \<and> (\<forall>nested. recursive \<and> js_lt (Finite 0) maxDepth
          \<and> (\<forall>item \<in> set (filter isDirectory items).
                listDirectory fuel env (path_join env dirPath (d_name item)) True
                  (js_sub maxDepth (Finite 1)) = Some (nested item)) \<longrightarrow>
      listDirectory (Suc fuel) env dirPath recursive maxDepth =
        Some (listing_events env dirPath items
              @ map (\<lambda>item. Call (path_join env dirPath (d_name item)) True
                       (js_sub maxDepth (Finite 1)) (fst (nested item)))
                  (filter isDirectory items),
              Inr (''# Directory Listing: '' @ dirPath @ ''\<newline>\<newline>## Directories:\<newline>''
                   @ join ''\<newline>'' (map (entry_line env dirPath) (filter isDirectory items))
                   @ ''\<newline>\<newline>## Files:\<newline>''
                   @ join ''\<newline>'' (map (entry_line env dirPath) (filter (\<lambda>i. \<not> isDirectory i) items))
                   @ ''\<newline>\<newline>## Subdirectories (recursive):\<newline>''
                   @ concat (map (\<lambda>item. case snd (nested item) of
                                     Inr listing \<Rightarrow> ''\<newline>### '' @ d_name item @ ''/\<newline>'' @ listing @ ''\<newline>''
                                   | Inl message \<Rightarrow> ''\<newline>### '' @ d_name item @ ''/ (access denied)\<newline>'')
                               (filter isDirectory items)))))
    \<and> (\<forall>item message. fs_stat env (path_join env dirPath (d_name item)) = Inl message \<longrightarrow>
          entry_line env dirPath item =
            (if isDirectory item then folder_icon @ '' '' @ d_name item @ ''/ (access denied)''
             else file_icon @ '' '' @ d_name item @ '' (access denied)''))
    \<and> (\<forall>item stats. fs_stat env (path_join env dirPath (d_name item)) = Inr stats \<longrightarrow>
          entry_line env dirPath item =
            (if isDirectory item
             then folder_icon @ '' '' @ d_name item @ ''/ ('' @ iso_date (st_mtime stats) @ '')''
             else file_icon @ '' '' @ d_name item @ '' (''
                  @ (if isFile item then formatFileSize (st_size stats) else []) @ '', ''
                  @ iso_date (st_mtime stats) @ '')''))
    \<and> (\<forall>(item::dirent) message depth.
          fs_readdir env (path_join env dirPath (d_name item)) = Inl message \<longrightarrow>
          listDirectory (Suc fuel) env (path_join env dirPath (d_name item)) True depth =
            Some ([Readdir (path_join env dirPath (d_name item))],
                  Inl (''Cannot list directory '' @ path_join env dirPath (d_name item) @ '': '' @ message)))
    \<and> (\<forall>res. listDirectory fuel env dirPath recursive maxDepth = Some res \<longrightarrow>
          (\<exists>listing. snd res = Inr listing))
    \<and> (\<forall>x. maxDepth = Finite x \<and> x \<le> 2 ^ 53 \<and> nat \<lceil>2 * x\<rceil> < fuel \<longrightarrow>
          (\<exists>evs listing. listDirectory fuel env dirPath recursive maxDepth = Some (evs, Inr listing)))
    \<and> (\<forall>other a resp. arg_action a = Some ''list_directory'' \<and> arg_path a = Some dirPath
          \<and> dirPath \<noteq> [] \<and> filesystem_run fuel env other a = Some resp \<longrightarrow>
          \<not> resp_isError (snd resp))"
proof (intro conjI allI impI)
  assume "\<not> (recursive \<and> js_lt (Finite 0) maxDepth)"
  from listDirectory_flat[OF assms this] show "listDirectory (Suc fuel) env dirPath recursive maxDepth =
        Some (listing_events env dirPath items,
              Inr (''# Directory Listing: '' @ dirPath @ ''\<newline>\<newline>## Directories:\<newline>''
                   @ join ''\<newline>'' (map (entry_line env dirPath) (filter isDirectory items))
                   @ ''\<newline>\<newline>## Files:\<newline>''
                   @ join ''\<newline>'' (map (entry_line env dirPath) (filter (\<lambda>i. \<not> isDirectory i) items))))"
    by (simp add: listing_text_sections)
next
  fix nested
  assume a: "recursive \<and> js_lt (Finite 0) maxDepth
          \<and> (\<forall>item \<in> set (filter isDirectory items).
                listDirectory fuel env (path_join env dirPath (d_name item)) True
                  (js_sub maxDepth (Finite 1)) = Some (nested item))"
  then have r: "recursive" and d: "js_lt (Finite 0) maxDepth"
    and n: "\<forall>item \<in> set (filter isDirectory items).
                listDirectory fuel env (path_join env dirPath (d_name item)) True
                  (js_sub maxDepth (Finite 1)) = Some (nested item)"
    by blast+
  show "listDirectory (Suc fuel) env dirPath recursive maxDepth =
        Some (listing_events env dirPath items
              @ map (\<lambda>item. Call (path_join env dirPath (d_name item)) True
                       (js_sub maxDepth (Finite 1)) (fst (nested item)))
                  (filter isDirectory items),
              Inr (''# Directory Listing: '' @ dirPath @ ''\<newline>\<newline>## Directories:\<newline>''
                   @ join ''\<newline>'' (map (entry_line env dirPath) (filter isDirectory items))
                   @ ''\<newline>\<newline>## Files:\<newline>''
                   @ join ''\<newline>'' (map (entry_line env dirPath) (filter (\<lambda>i. \<not> isDirectory i) items))
                   @ ''\<newline>\<newline>## Subdirectories (recursive):\<newline>''
                   @ concat (map (\<lambda>item. case snd (nested item) of
                                     Inr listing \<Rightarrow> ''\<newline>### '' @ d_name item @ ''/\<newline>'' @ listing @ ''\<newline>''
                                   | Inl message \<Rightarrow> ''\<newline>### '' @ d_name item @ ''/ (access denied)\<newline>'')
                               (filter isDirectory items))))"
    unfolding listDirectory_rec[OF assms r d n]
    by (simp add: listing_text_sections recursive_header_def subdirectory_section_cases)
next
  fix item :: dirent and message
  assume "fs_stat env (path_join env dirPath (d_name item)) = Inl message"
  then show "entry_line env dirPath item =
            (if isDirectory item then folder_icon @ '' '' @ d_name item @ ''/ (access denied)''
             else file_icon @ '' '' @ d_name item @ '' (access denied)'')"
    by (simp add: entry_line_def directory_denied_def file_denied_def)
next
  fix item :: dirent and stats
  assume "fs_stat env (path_join env dirPath (d_name item)) = Inr stats"
  then show "entry_line env dirPath item =
            (if isDirectory item
             then folder_icon @ '' '' @ d_name item @ ''/ ('' @ iso_date (st_mtime stats) @ '')''
             else file_icon @ '' '' @ d_name item @ '' (''
                  @ (if isFile item then formatFileSize (st_size stats) else []) @ '', ''
                  @ iso_date (st_mtime stats) @ '')'')"
    by (simp add: entry_line_def directory_line_def file_line_def)
next
  fix item :: dirent and message depth
  assume "fs_readdir env (path_join env dirPath (d_name item)) = Inl message"
  then show "listDirectory (Suc fuel) env (path_join env dirPath (d_name item)) True depth =
            Some ([Readdir (path_join env dirPath (d_name item))],
                  Inl (''Cannot list directory '' @ path_join env dirPath (d_name item) @ '': '' @ message))"
    by (simp add: listDirectory_failed cannot_list_def)
next
  fix res
  assume "listDirectory fuel env dirPath recursive maxDepth = Some res"
  from listDirectory_Inr[OF assms this] show "\<exists>listing. snd res = Inr listing" by blast
next
  fix x
  assume "maxDepth = Finite x \<and> x \<le> 2 ^ 53 \<and> nat \<lceil>2 * x\<rceil> < fuel"
  then obtain res where res: "listDirectory fuel env dirPath recursive maxDepth = Some res"
    using listDirectory_returns[of x fuel env dirPath recursive] by blast
  from listDirectory_Inr[OF assms this] obtain listing where "snd res = Inr listing" by blast
  with res show "\<exists>evs listing. listDirectory fuel env dirPath recursive maxDepth = Some (evs, Inr listing)"
    by (cases res) auto
next
  fix other and a :: args and resp
  assume "arg_action a = Some ''list_directory'' \<and> arg_path a = Some dirPath
          \<and> dirPath \<noteq> [] \<and> filesystem_run fuel env other a = Some resp"
  then show "\<not> resp_isError (snd resp)"
    using list_request_succeeds[OF assms] by blast
qed

theorem listDirectory_partial_failure_witness:
  "fs_readdir demo_env mixed_dir =
     Inr [entry ''secret.txt'' FileEntry, entry ''ok.txt'' FileEntry,
          entry ''locked'' DirectoryEntry, entry ''open'' DirectoryEntry]
   \<and> fs_stat demo_env (sub mixed_dir ''secret.txt'') = Inl ''EPERM: operation not permitted''
   \<and> fs_readdir demo_env (sub mixed_dir ''locked'') = Inl ''EPERM: operation not permitted''
   \<and> listDirectory 2 demo_env mixed_dir True (Finite 1) =
       Some ([Readdir mixed_dir, Stat (sub mixed_dir ''secret.txt''), Stat (sub mixed_dir ''ok.txt''),
              Stat (sub mixed_dir ''locked''), Stat (sub mixed_dir ''open''),
              Call (sub mixed_dir ''locked'') True (Finite 0) [Readdir (sub mixed_dir ''locked'')],
              Call (sub mixed_dir ''open'') True (Finite 0) [Readdir (sub mixed_dir ''open'')]],
             Inr (''# Directory Listing: '' @ mixed_dir @ ''\<newline>\<newline>## Directories:\<newline>''
                  @ folder_icon @ '' locked/ (2024-01-15)\<newline>''
                  @ folder_icon @ '' open/ (2024-01-15)''
                  @ ''\<newline>\<newline>## Files:\<newline>''
                  @ file_icon @ '' secret.txt (access denied)\<newline>''
                  @ file_icon @ '' ok.txt (1.50 KB, 2024-02-01)''
                  @ ''\<newline>\<newline>## Subdirectories (recursive):\<newline>''
                  @ ''\<newline>### locked/ (access denied)\<newline>''
                  @ ''\<newline>### open/\<newline>''
                  @ ''# Directory Listing: '' @ sub mixed_dir ''open''
                  @ ''\<newline>\<newline>## Directories:\<newline>\<newline>\<newline>## Files:\<newline>''
                  @ ''\<newline>''))
   \<and> map_option (resp_isError \<circ> snd)
         (filesystem_run 2 demo_env no_other (walk_request mixed_dir (Finite 1))) = Some False"
proof -
  let ?items = "[entry ''secret.txt'' FileEntry, entry ''ok.txt'' FileEntry,
                 entry ''locked'' DirectoryEntry, entry ''open'' DirectoryEntry]"
  let ?nested = "\<lambda>item :: dirent.
        if d_name item = ''locked''
        then ([Readdir (sub mixed_dir ''locked'')],
              Inl (cannot_list (sub mixed_dir ''locked'') ''EPERM: operation not permitted''))
        else ([Readdir (sub mixed_dir ''open'')],
              Inr (listing_text demo_env (sub mixed_dir ''open'') []) :: string + string)"
  have rd: "fs_readdir demo_env mixed_dir = Inr ?items"
    by (simp add: demo_defs)
  have st: "fs_stat demo_env (sub mixed_dir ''secret.txt'') = Inl ''EPERM: operation not permitted''"
    by (simp add: demo_defs)
  have lk: "fs_readdir demo_env (sub mixed_dir ''locked'') = Inl ''EPERM: operation not permitted''"
    by (simp add: demo_defs)
  have op: "fs_readdir demo_env (sub mixed_dir ''open'') = Inr []"
    by (simp add: demo_defs)
  have pj: "path_join demo_env = sub" by (simp add: demo_env_def)
  have pre: "True \<and> js_lt (Finite 0) (Finite 1)
      \<and> (\<forall>item \<in> set (filter isDirectory ?items).
            listDirectory 1 demo_env (path_join demo_env mixed_dir (d_name item)) True
              (js_sub (Finite 1) (Finite 1)) = Some (?nested item))"
    by (simp add: listDirectory.simps pj lk op demo_zero_depth entry_def isDirectory_def
        listing_events_def)
  note t = listDirectory_partial_failure[OF rd, where recursive = True and maxDepth = "Finite 1"
      and fuel = 1]
  from t[THEN conjunct2, THEN conjunct1, rule_format, of ?nested, OF pre]
  have "listDirectory 2 demo_env mixed_dir True (Finite 1) =
        Some (listing_events demo_env mixed_dir ?items
              @ map (\<lambda>item. Call (path_join demo_env mixed_dir (d_name item)) True
                       (js_sub (Finite 1) (Finite 1)) (fst (?nested item)))
                  (filter isDirectory ?items),
              Inr (''# Directory Listing: '' @ mixed_dir @ ''\<newline>\<newline>## Directories:\<newline>''
                   @ join ''\<newline>'' (map (entry_line demo_env mixed_dir) (filter isDirectory ?items))
                   @ ''\<newline>\<newline>## Files:\<newline>''
                   @ join ''\<newline>'' (map (entry_line demo_env mixed_dir)
                                            (filter (\<lambda>i. \<not> isDirectory i) ?items))
                   @ ''\<newline>\<newline>## Subdirectories (recursive):\<newline>''
                   @ concat (map (\<lambda>item. case snd (?nested item) of
                                     Inr listing \<Rightarrow> ''\<newline>### '' @ d_name item @ ''/\<newline>'' @ listing @ ''\<newline>''
                                   | Inl message \<Rightarrow> ''\<newline>### '' @ d_name item @ ''/ (access denied)\<newline>'')
                               (filter isDirectory ?items))))"
    by (simp only: numeral_2_eq_2 One_nat_def)
  moreover have "map (entry_line demo_env mixed_dir) (filter isDirectory ?items)
      = [folder_icon @ '' locked/ (2024-01-15)'', folder_icon @ '' open/ (2024-01-15)'']"
    "map (entry_line demo_env mixed_dir) (filter (\<lambda>i. \<not> isDirectory i) ?items)
      = [file_icon @ '' secret.txt (access denied)'', file_icon @ '' ok.txt (1.50 KB, 2024-02-01)'']"
    by (simp_all add: text_defs demo_defs demo_notes_size)
  ultimately have "listDirectory 2 demo_env mixed_dir True (Finite 1) =
       Some ([Readdir mixed_dir, Stat (sub mixed_dir ''secret.txt''), Stat (sub mixed_dir ''ok.txt''),
              Stat (sub mixed_dir ''locked''), Stat (sub mixed_dir ''open''),
              Call (sub mixed_dir ''locked'') True (Finite 0) [Readdir (sub mixed_dir ''locked'')],
              Call (sub mixed_dir ''open'') True (Finite 0) [Readdir (sub mixed_dir ''open'')]],
             Inr (''# Directory Listing: '' @ mixed_dir @ ''\<newline>\<newline>## Directories:\<newline>''
                  @ folder_icon @ '' locked/ (2024-01-15)\<newline>''
                  @ folder_icon @ '' open/ (2024-01-15)''
                  @ ''\<newline>\<newline>## Files:\<newline>''
                  @ file_icon @ '' secret.txt (access denied)\<newline>''
                  @ file_icon @ '' ok.txt (1.50 KB, 2024-02-01)''
                  @ ''\<newline>\<newline>## Subdirectories (recursive):\<newline>''
                  @ ''\<newline>### locked/ (access denied)\<newline>''
                  @ ''\<newline>### open/\<newline>''
                  @ ''# Directory Listing: '' @ sub mixed_dir ''open''
                  @ ''\<newline>\<newline>## Directories:\<newline>\<newline>\<newline>## Files:\<newline>''
                  @ ''\<newline>''))"
    by (simp add: pj demo_zero_depth entry_def isDirectory_def listing_events_def listing_text_sections)
  moreover from this
  have "map_option (resp_isError \<circ> snd)
         (filesystem_run 2 demo_env no_other (walk_request mixed_dir (Finite 1))) = Some False"
    by (simp add: filesystem_run_def walk_request_def no_args_def truthy_string_def mixed_dir_def
        respond_def)
  ultimately show ?thesis using rd st lk by (intro conjI)
qed

subsection \<open>Responses of the filesystem tool\<close>

lemma respond_simps:
  "respond failure (evs, Inr report) = (evs, \<lparr>resp_text = report, resp_isError = False\<rparr>)"
  "respond failure (evs, Inl message) = (evs, \<lparr>resp_text = failure @ message, resp_isError = True\<rparr>)"
  by (simp_all add: respond_def)

lemma filesystem_run_list:
  assumes "arg_action a = Some ''list_directory''"
  shows "filesystem_run fuel env other a =
           map_option (respond (fs_cross_mark @ '' File system operation failed: ''))
             (listDirectory fuel env
                (if truthy_string (arg_path a) then the (arg_path a) else ''C:'' @ backslash)
                (case arg_recursive a of None \<Rightarrow> False | Some r \<Rightarrow> r)
                (case arg_max_depth a of None \<Rightarrow> Finite 3 | Some d \<Rightarrow> d))"
  using assms by (simp add: filesystem_run_def)

lemma filesystem_run_read:
  assumes "arg_action a = Some ''read_file''" and "arg_path a = Some p"
  shows "filesystem_run fuel env other a =
           Some (respond (fs_cross_mark @ '' File system operation failed: '') (readFile env p))"
  using assms by (simp add: filesystem_run_def)

text \<open>
  C7. Every listing begins with the heading, the Directories section and then the Files
  section; the lines of each section are those of its entries in the order of the
  enumeration, with no sorting. Nothing follows unless the walk is recursive with a
  positive depth: the response to a \<open>list_directory\<close> request that does not ask for
  recursion is exactly the two sections. The walk returns when it does not recurse, and
  when its depth is up to \<open>2 ^ 53\<close> and it has fuel for twice the depth. On a directory with
  two subfolders and one file the sections are two directory lines and one file line.
\<close>

theorem listDirectory_sections:
  assumes "fs_readdir env dirPath = Inr items"
  shows "(\<forall>res. listDirectory fuel env dirPath recursive maxDepth = Some res \<longrightarrow>
          (\<exists>rest. snd res =
            Inr (''# Directory Listing: '' @ dirPath @ ''\<newline>\<newline>## Directories:\<newline>''
                 @ join ''\<newline>'' (map (entry_line env dirPath) (filter isDirectory items))
                 @ ''\<newline>\<newline>## Files:\<newline>''
                 @ join ''\<newline>'' (map (entry_line env dirPath) (filter (\<lambda>i. \<not> isDirectory i) items))
                 @ rest)
            \<and> (\<not> (recursive \<and> js_lt (Finite 0) maxDepth) \<longrightarrow> rest = [])))
    \<and> (0 < fuel \<and> \<not> (recursive \<and> js_lt (Finite 0) maxDepth)
         \<or> (\<exists>x. maxDepth = Finite x \<and> x \<le> 2 ^ 53 \<and> nat \<lceil>2 * x\<rceil> < fuel) \<longrightarrow>
          (\<exists>res. listDirectory fuel env dirPath recursive maxDepth = Some res))
    \<and> (\<forall>other a. arg_action a = Some ''list_directory'' \<and> arg_path a = Some dirPath \<and> dirPath \<noteq> []
          \<and> (arg_recursive a = None \<or> arg_recursive a = Some False) \<longrightarrow>
          map_option snd (filesystem_run (Suc fuel) env other a) =
            Some \<lparr>resp_text =
               ''# Directory Listing: '' @ dirPath @ ''\<newline>\<newline>## Directories:\<newline>''
               @ join ''\<newline>'' (map (entry_line env dirPath) (filter isDirectory items))
               @ ''\<newline>\<newline>## Files:\<newline>''
               @ join ''\<newline>'' (map (entry_line env dirPath) (filter (\<lambda>i. \<not> isDirectory i) items)),
             resp_isError = False\<rparr>)"
proof (intro conjI allI impI)
  fix res
  assume "listDirectory fuel env dirPath recursive maxDepth = Some res"
  from listDirectory_Inr[OF assms this]
  obtain rest where r: "snd res = Inr (listing_text env dirPath items @ rest)"
    "recursive \<and> js_lt (Finite 0) maxDepth \<or> rest = []"
    by blast
  show "\<exists>rest. snd res =
            Inr (''# Directory Listing: '' @ dirPath @ ''\<newline>\<newline>## Directories:\<newline>''
                 @ join ''\<newline>'' (map (entry_line env dirPath) (filter isDirectory items))
                 @ ''\<newline>\<newline>## Files:\<newline>''
                 @ join ''\<newline>'' (map (entry_line env dirPath) (filter (\<lambda>i. \<not> isDirectory i) items))
                 @ rest)
            \<and> (\<not> (recursive \<and> js_lt (Finite 0) maxDepth) \<longrightarrow> rest = [])"
    using r by (intro exI[of _ rest]) (auto simp: listing_text_sections)
next
  assume "0 < fuel \<and> \<not> (recursive \<and> js_lt (Finite 0) maxDepth)
         \<or> (\<exists>x. maxDepth = Finite x \<and> x \<le> 2 ^ 53 \<and> nat \<lceil>2 * x\<rceil> < fuel)"
  then show "\<exists>res. listDirectory fuel env dirPath recursive maxDepth = Some res"
  proof
    assume a: "0 < fuel \<and> \<not> (recursive \<and> js_lt (Finite 0) maxDepth)"
    then obtain n where "fuel = Suc n" by (cases fuel) auto
    with a listDirectory_flat[OF assms, of recursive maxDepth n] show ?thesis by blast
  next
    assume "\<exists>x. maxDepth = Finite x \<and> x \<le> 2 ^ 53 \<and> nat \<lceil>2 * x\<rceil> < fuel"
    then show ?thesis using listDirectory_returns by blast
  qed
next
  fix other and a :: args
  assume a: "arg_action a = Some ''list_directory'' \<and> arg_path a = Some dirPath \<and> dirPath \<noteq> []
          \<and> (arg_recursive a = None \<or> arg_recursive a = Some False)"
  then have "filesystem_run (Suc fuel) env other a =
      map_option (respond (fs_cross_mark @ '' File system operation failed: ''))
        (listDirectory (Suc fuel) env dirPath False
           (case arg_max_depth a of None \<Rightarrow> Finite 3 | Some d \<Rightarrow> d))"
    by (auto simp: filesystem_run_list truthy_string_def)
  moreover have "listDirectory (Suc fuel) env dirPath False
           (case arg_max_depth a of None \<Rightarrow> Finite 3 | Some d \<Rightarrow> d)
      = Some (listing_events env dirPath items, Inr (listing_text env dirPath items))"
    using assms by (intro listDirectory_flat) simp_all
  ultimately show "map_option snd (filesystem_run (Suc fuel) env other a) =
            Some \<lparr>resp_text =
               ''# Directory Listing: '' @ dirPath @ ''\<newline>\<newline>## Directories:\<newline>''
               @ join ''\<newline>'' (map (entry_line env dirPath) (filter isDirectory items))
               @ ''\<newline>\<newline>## Files:\<newline>''
               @ join ''\<newline>'' (map (entry_line env dirPath) (filter (\<lambda>i. \<not> isDirectory i) items)),
             resp_isError = False\<rparr>"
    by (simp add: respond_simps listing_text_sections)
qed

theorem listDirectory_sections_witness:
  "fs_readdir demo_env data_dir =
     Inr [entry ''docs'' DirectoryEntry, entry ''notes.txt'' FileEntry, entry ''logs'' DirectoryEntry]
   \<and> map_option snd (filesystem_run 1 demo_env no_other (path_request ''list_directory'' data_dir)) =
       Some \<lparr>resp_text =
          ''# Directory Listing: '' @ data_dir @ ''\<newline>\<newline>## Directories:\<newline>''
          @ directory_line ''docs'' ''2024-01-15'' @ ''\<newline>'' @ directory_line ''logs'' ''2024-01-15''
          @ ''\<newline>\<newline>## Files:\<newline>''
          @ file_line ''notes.txt'' ''1.50 KB'' ''2024-02-01'',
        resp_isError = False\<rparr>"
proof -
  let ?items = "[entry ''docs'' DirectoryEntry, entry ''notes.txt'' FileEntry, entry ''logs'' DirectoryEntry]"
  have rd: "fs_readdir demo_env data_dir = Inr ?items"
    by (simp add: demo_defs)
  have rq: "arg_action (path_request ''list_directory'' data_dir) = Some ''list_directory''
      \<and> arg_path (path_request ''list_directory'' data_dir) = Some data_dir \<and> data_dir \<noteq> []
      \<and> (arg_recursive (path_request ''list_directory'' data_dir) = None
          \<or> arg_recursive (path_request ''list_directory'' data_dir) = Some False)"
    by (simp add: path_request_def no_args_def data_dir_def)
  have lines: "map (entry_line demo_env data_dir) (filter isDirectory ?items)
                 = [directory_line ''docs'' ''2024-01-15'', directory_line ''logs'' ''2024-01-15'']"
    "map (entry_line demo_env data_dir) (filter (\<lambda>i. \<not> isDirectory i) ?items)
       = [file_line ''notes.txt'' ''1.50 KB'' ''2024-02-01'']"
    by (simp_all add: entry_line_def iso_date_def demo_defs formatBytes_examples formatFileSize_eq)
  from listDirectory_sections[OF rd, of 0 False "Finite 3"] rq
  have "map_option snd (filesystem_run (Suc 0) demo_env no_other (path_request ''list_directory'' data_dir)) =
       Some \<lparr>resp_text =
          ''# Directory Listing: '' @ data_dir @ ''\<newline>\<newline>## Directories:\<newline>''
          @ join ''\<newline>'' (map (entry_line demo_env data_dir) (filter isDirectory ?items))
          @ ''\<newline>\<newline>## Files:\<newline>''
          @ join ''\<newline>'' (map (entry_line demo_env data_dir) (filter (\<lambda>i. \<not> isDirectory i) ?items)),
        resp_isError = False\<rparr>"
    by blast
  then show ?thesis using rd by (simp only: lines One_nat_def) simp
qed

text \<open>
  C9 (amended). When \<open>stat\<close> reports a directory, \<open>read_file\<close> yields a failure response
  whose message ends with \<open>Path is a directory, not a file\<close>: the handler's error is
  \<open>Cannot read file\<close>, the path, a colon and that text, and the response puts the failure
  prefix of the tool before it. When \<open>stat\<close> reports a file of more than 1048576 bytes, the
  failure response reports the file as too large in the same way. In both cases \<open>stat\<close> is
  the only operation performed: the content is neither read nor returned.
\<close>

theorem readFile_guards:
  "(\<forall>stats. fs_stat env filePath = Inr stats \<and> st_isDirectory stats \<longrightarrow>
      readFile env filePath =
        ([Stat filePath],
         Inl (''Cannot read file '' @ filePath @ '': Path is a directory, not a file''))
      \<and> (\<forall>fuel other a. arg_action a = Some ''read_file'' \<and> arg_path a = Some filePath \<longrightarrow>
            filesystem_run fuel env other a =
              Some ([Stat filePath],
                    \<lparr>resp_text = fs_cross_mark @ '' File system operation failed: Cannot read file ''
                         @ filePath @ '': Path is a directory, not a file'',
                     resp_isError = True\<rparr>)))
   \<and> (\<forall>stats. fs_stat env filePath = Inr stats \<and> \<not> st_isDirectory stats \<and> 1048576 < st_size stats \<longrightarrow>
      readFile env filePath =
        ([Stat filePath],
         Inl (''Cannot read file '' @ filePath
              @ '': File too large (>1MB). Use file info to check size first.''))
      \<and> (\<forall>fuel other a. arg_action a = Some ''read_file'' \<and> arg_path a = Some filePath \<longrightarrow>
            filesystem_run fuel env other a =
              Some ([Stat filePath],
                    \<lparr>resp_text = fs_cross_mark @ '' File system operation failed: Cannot read file ''
                         @ filePath @ '': File too large (>1MB). Use file info to check size first.'',
                     resp_isError = True\<rparr>)))"
  by (auto simp: readFile_def filesystem_run_read respond_simps)

theorem readFile_guards_witness:
  "fs_stat demo_env data_dir
     = Inr \<lparr>st_size = 0, st_mtime = ''2024-01-15T10:30:00.000Z'', st_isDirectory = True\<rparr>
   \<and> filesystem_run 0 demo_env no_other (path_request ''read_file'' data_dir) =
       Some ([Stat data_dir],
             \<lparr>resp_text = fs_cross_mark @ '' File system operation failed: Cannot read file ''
                  @ data_dir @ '': Path is a directory, not a file'',
              resp_isError = True\<rparr>)
   \<and> fs_stat demo_env big_file
     = Inr \<lparr>st_size = 1048577, st_mtime = ''2024-03-01T00:00:00.000Z'', st_isDirectory = False\<rparr>
   \<and> readFile demo_env big_file =
       ([Stat big_file],
        Inl (''Cannot read file '' @ big_file
             @ '': File too large (>1MB). Use file info to check size first.''))"
proof -
  have d: "fs_stat demo_env data_dir
     = Inr \<lparr>st_size = 0, st_mtime = ''2024-01-15T10:30:00.000Z'', st_isDirectory = True\<rparr>"
    by (simp add: demo_defs)
  have b: "fs_stat demo_env big_file
     = Inr \<lparr>st_size = 1048577, st_mtime = ''2024-03-01T00:00:00.000Z'', st_isDirectory = False\<rparr>"
    by (simp add: demo_defs)
  have rq: "arg_action (path_request ''read_file'' data_dir) = Some ''read_file''
            \<and> arg_path (path_request ''read_file'' data_dir) = Some data_dir"
    by (simp add: path_request_def no_args_def)
  from readFile_guards[of demo_env data_dir] d rq
  have 1: "filesystem_run 0 demo_env no_other (path_request ''read_file'' data_dir) =
       Some ([Stat data_dir],
             \<lparr>resp_text = fs_cross_mark @ '' File system operation failed: Cannot read file ''
                  @ data_dir @ '': Path is a directory, not a file'',
              resp_isError = True\<rparr>)"
    by simp
  from readFile_guards[of demo_env big_file] b
  have 2: "readFile demo_env big_file =
       ([Stat big_file],
        Inl (''Cannot read file '' @ big_file
             @ '': File too large (>1MB). Use file info to check size first.''))"
    by simp
  from d b 1 2 show ?thesis by (intro conjI)
qed

text \<open>
  As stated, the claim fails: the message of the failure is not the bare text
  \<open>Path is a directory, not a file\<close>, neither in the error of the handler nor in the
  response.
\<close>

theorem readFile_message_counterexample:
  "fs_stat demo_env data_dir
     = Inr \<lparr>st_size = 0, st_mtime = ''2024-01-15T10:30:00.000Z'', st_isDirectory = True\<rparr>
   \<and> snd (readFile demo_env data_dir)
     = Inl (''Cannot read file C:'' @ backslash @ ''data: Path is a directory, not a file'')
   \<and> snd (readFile demo_env data_dir) \<noteq> Inl ''Path is a directory, not a file''
   \<and> map_option (resp_text \<circ> snd)
         (filesystem_run 0 demo_env no_other (path_request ''read_file'' data_dir))
     = Some (fs_cross_mark @ '' File system operation failed: Cannot read file C:'' @ backslash
             @ ''data: Path is a directory, not a file'')
   \<and> map_option (resp_text \<circ> snd)
         (filesystem_run 0 demo_env no_other (path_request ''read_file'' data_dir))
     \<noteq> Some ''Path is a directory, not a file''"
  by (simp add: readFile_def filesystem_run_def respond_def path_request_def no_args_def demo_defs
      fs_cross_mark_def)

subsection \<open>Process manager\<close>

lemma process_manager_run_kill:
  assumes "arg_action a = Some ''kill_process''"
  shows "process_manager_run env other a =
           respond (cross_mark @ '' Process management operation failed: '')
             (killProcess env (arg_process_id a) (arg_process_name a))"
  using assms by (simp add: process_manager_run_def)

lemma process_manager_run_details:
  assumes "arg_action a = Some ''get_process_details''"
  shows "process_manager_run env other a =
           respond (cross_mark @ '' Process management operation failed: '')
             (getProcessDetails env (arg_process_id a) (arg_process_name a))"
  using assms by (simp add: process_manager_run_def)

text \<open>
  C8. With neither \<open>process_id\<close> nor \<open>process_name\<close>, \<open>kill_process\<close> and
  \<open>get_process_details\<close> fail with a message that says that either \<open>process_id\<close> or
  \<open>process_name\<close> must be provided, both as handlers and as requests to the tool, and they
  perform no operation: no command is executed.
\<close>

theorem missing_process_identifier:
  "killProcess env None None
     = ([], Inl ''Failed to kill process: Either process_id or process_name must be provided'')
   \<and> getProcessDetails env None None
     = ([], Inl ''Failed to get process details: Either process_id or process_name must be provided'')
   \<and> (\<forall>other a. arg_action a = Some ''kill_process'' \<and> arg_process_id a = None
          \<and> arg_process_name a = None \<longrightarrow>
        process_manager_run env other a =
          ([], \<lparr>resp_text = cross_mark @ '' Process management operation failed: ''
                   @ ''Failed to kill process: Either process_id or process_name must be provided'',
                resp_isError = True\<rparr>))
   \<and> (\<forall>other a. arg_action a = Some ''get_process_details'' \<and> arg_process_id a = None
          \<and> arg_process_name a = None \<longrightarrow>
        process_manager_run env other a =
          ([], \<lparr>resp_text = cross_mark @ '' Process management operation failed: ''
                   @ ''Failed to get process details: Either process_id or process_name must be provided'',
                resp_isError = True\<rparr>))"
  by (simp add: killProcess_def getProcessDetails_def truthy_number_def truthy_string_def
      missing_identifier_def process_manager_run_kill process_manager_run_details respond_simps)

theorem missing_process_identifier_witness:
  "arg_action (process_request ''kill_process'' None None) = Some ''kill_process''
   \<and> arg_process_id (process_request ''kill_process'' None None) = None
   \<and> arg_process_name (process_request ''kill_process'' None None) = None
   \<and> process_manager_run demo_env no_other (process_request ''kill_process'' None None) =
       ([], \<lparr>resp_text = cross_mark @ '' Process management operation failed: ''
                @ ''Failed to kill process: Either process_id or process_name must be provided'',
             resp_isError = True\<rparr>)
   \<and> fst (process_manager_run demo_env no_other (process_request ''get_process_details'' None None)) = []"
proof -
  have k: "arg_action (process_request ''kill_process'' None None) = Some ''kill_process''"
    "arg_process_id (process_request ''kill_process'' None None) = None"
    "arg_process_name (process_request ''kill_process'' None None) = None"
    by (simp_all add: process_request_def no_args_def)
  have g: "arg_action (process_request ''get_process_details'' None None) = Some ''get_process_details''
    \<and> arg_process_id (process_request ''get_process_details'' None None) = None
    \<and> arg_process_name (process_request ''get_process_details'' None None) = None"
    by (simp add: process_request_def no_args_def)
  note t = missing_process_identifier[of demo_env]
  from t k have 1: "process_manager_run demo_env no_other (process_request ''kill_process'' None None) =
       ([], \<lparr>resp_text = cross_mark @ '' Process management operation failed: ''
                @ ''Failed to kill process: Either process_id or process_name must be provided'',
             resp_isError = True\<rparr>)"
    by blast
  from t g have "process_manager_run demo_env no_other (process_request ''get_process_details'' None None) =
          ([], \<lparr>resp_text = cross_mark @ '' Process management operation failed: ''
                   @ ''Failed to get process details: Either process_id or process_name must be provided'',
                resp_isError = True\<rparr>)"
    by blast
  then have 2: "fst (process_manager_run demo_env no_other
                  (process_request ''get_process_details'' None None)) = []"
    by simp
  from k 1 2 show ?thesis by (intro conjI)
qed

text \<open>
  C10. A \<open>process_id\<close> of 0 is treated as absent. With a non-empty \<open>process_name\<close> both
  handlers do what they do when no \<open>process_id\<close> is given and address the process by its
  name; with no \<open>process_name\<close> they fail with the missing-parameter message and execute
  no command, although \<open>process_id\<close> was supplied.
\<close>

theorem zero_process_id_is_absent:
  "(\<forall>name. name \<noteq> [] \<longrightarrow>
      killProcess env (Some (Finite 0)) (Some name) = killProcess env None (Some name)
      \<and> fst (killProcess env (Some (Finite 0)) (Some name)) = [Exec (powershell (kill_by_name name))]
      \<and> getProcessDetails env (Some (Finite 0)) (Some name) = getProcessDetails env None (Some name)
      \<and> hd (fst (getProcessDetails env (Some (Finite 0)) (Some name))) = Exec (powershell (details_by_name name)))
   \<and> killProcess env (Some (Finite 0)) None
     = ([], Inl ''Failed to kill process: Either process_id or process_name must be provided'')
   \<and> getProcessDetails env (Some (Finite 0)) None
     = ([], Inl ''Failed to get process details: Either process_id or process_name must be provided'')
   \<and> (\<forall>other a. arg_action a = Some ''kill_process'' \<and> arg_process_id a = Some (Finite 0)
          \<and> arg_process_name a = None \<longrightarrow>
        process_manager_run env other a =
          ([], \<lparr>resp_text = cross_mark @ '' Process management operation failed: ''
                   @ ''Failed to kill process: Either process_id or process_name must be provided'',
                resp_isError = True\<rparr>))
   \<and> (\<forall>other a. arg_action a = Some ''get_process_details'' \<and> arg_process_id a = Some (Finite 0)
          \<and> arg_process_name a = None \<longrightarrow>
        process_manager_run env other a =
          ([], \<lparr>resp_text = cross_mark @ '' Process management operation failed: ''
                   @ ''Failed to get process details: Either process_id or process_name must be provided'',
                resp_isError = True\<rparr>))"
  by (auto simp: killProcess_def getProcessDetails_def truthy_number_def truthy_string_def
      missing_identifier_def process_manager_run_kill process_manager_run_details respond_simps
      run_kill_def run_details_def split: sum.split)

theorem zero_process_id_is_absent_witness:
  "''notepad'' \<noteq> []
   \<and> killProcess demo_env (Some (Finite 0)) (Some ''notepad'')
     = ([Exec (powershell (kill_by_name ''notepad''))], Inr (terminated (''process '' @ quote @ ''notepad'' @ quote)))
   \<and> arg_action (process_request ''kill_process'' (Some (Finite 0)) None) = Some ''kill_process''
   \<and> arg_process_id (process_request ''kill_process'' (Some (Finite 0)) None) = Some (Finite 0)
   \<and> arg_process_name (process_request ''kill_process'' (Some (Finite 0)) None) = None
   \<and> process_manager_run demo_env no_other (process_request ''kill_process'' (Some (Finite 0)) None) =
       ([], \<lparr>resp_text = cross_mark @ '' Process management operation failed: ''
                @ ''Failed to kill process: Either process_id or process_name must be provided'',
             resp_isError = True\<rparr>)"
proof -
  have n: "''notepad'' \<noteq> []" by simp
  have k: "arg_action (process_request ''kill_process'' (Some (Finite 0)) None) = Some ''kill_process''"
    "arg_process_id (process_request ''kill_process'' (Some (Finite 0)) None) = Some (Finite 0)"
    "arg_process_name (process_request ''kill_process'' (Some (Finite 0)) None) = None"
    by (simp_all add: process_request_def no_args_def)
  note t = zero_process_id_is_absent[of demo_env]
  from t n have "killProcess demo_env (Some (Finite 0)) (Some ''notepad'') = killProcess demo_env None (Some ''notepad'')"
    by blast
  also have "\<dots> = ([Exec (powershell (kill_by_name ''notepad''))],
                    Inr (terminated (''process '' @ quote @ ''notepad'' @ quote)))"
    by (simp add: killProcess_def truthy_number_def truthy_string_def run_kill_def demo_env_def
        demo_exec_def powershell_def kill_by_name_def probe_command_def quote_def)
  finally have 1: "killProcess demo_env (Some (Finite 0)) (Some ''notepad'')
     = ([Exec (powershell (kill_by_name ''notepad''))],
        Inr (terminated (''process '' @ quote @ ''notepad'' @ quote)))" .
  from t k have 2: "process_manager_run demo_env no_other (process_request ''kill_process'' (Some (Finite 0)) None) =
       ([], \<lparr>resp_text = cross_mark @ '' Process management operation failed: ''
                @ ''Failed to kill process: Either process_id or process_name must be provided'',
             resp_isError = True\<rparr>)"
    by blast
  from n k 1 2 show ?thesis by (intro conjI)
qed

subsection \<open>Dispatch\<close>

lemma switch_default:
  "act \<notin> Some ` fst ` set cases \<Longrightarrow> switch cases otherwise act = otherwise"
  by (induction cases) auto

lemma switch_default_map:
  "act \<notin> Some ` set labels \<Longrightarrow>
     switch (map (\<lambda>label. (label, f label)) labels) otherwise act = otherwise"
  by (rule switch_default) (auto simp: image_iff)

lemma unknown_response:
  "respond failure (unknown_action act)
     = ([], \<lparr>resp_text = failure @ (''Unknown action: '' @ template act), resp_isError = True\<rparr>)"
  by (simp add: respond_def unknown_action_def)

lemma filesystem_run_unknown:
  assumes "arg_action a \<notin> Some ` set
       [''list_directory'', ''read_file'', ''search_files'', ''get_file_info'',
        ''find_large_files'', ''get_disk_usage'']"
  shows "filesystem_run fuel env other a =
           Some ([], \<lparr>resp_text = (fs_cross_mark @ '' File system operation failed: '')
                         @ (''Unknown action: '' @ template (arg_action a)),
                      resp_isError = True\<rparr>)"
proof -
  have "switch cases otherwise (arg_action a) = otherwise" if "map fst cases =
       [''list_directory'', ''read_file'', ''search_files'', ''get_file_info'',
        ''find_large_files'', ''get_disk_usage'']"
    for cases :: "(string \<times> outcome option) list" and otherwise
    proof (rule switch_default)
      have e: "fst ` set cases = set (map fst cases)" by (simp only: set_map)
      show "arg_action a \<notin> Some ` fst ` set cases" unfolding e that using assms .
    qed
  then show ?thesis
    unfolding filesystem_run_def by (simp add: unknown_response del: switch.simps)
qed

lemma process_manager_run_unknown:
  assumes "arg_action a \<notin> Some ` set
       [''list_processes'', ''get_process_details'', ''kill_process'', ''find_process'',
        ''get_top_processes'', ''get_process_tree'']"
  shows "process_manager_run env other a =
           ([], \<lparr>resp_text = (cross_mark @ '' Process management operation failed: '')
                    @ (''Unknown action: '' @ template (arg_action a)),
                 resp_isError = True\<rparr>)"
proof -
  have "switch cases otherwise (arg_action a) = otherwise" if "map fst cases =
       [''list_processes'', ''get_process_details'', ''kill_process'', ''find_process'',
        ''get_top_processes'', ''get_process_tree'']" for cases :: "(string \<times> outcome) list" and otherwise
    proof (rule switch_default)
      have e: "fst ` set cases = set (map fst cases)" by (simp only: set_map)
      show "arg_action a \<notin> Some ` fst ` set cases" unfolding e that using assms .
    qed
  then show ?thesis
    unfolding process_manager_run_def by (simp add: unknown_response del: switch.simps)
qed

lemma system_info_run_unknown:
  assumes "arg_action a \<notin> Some ` set
       [''get_system_overview'', ''get_hardware_info'', ''get_os_info'',
        ''get_environment_vars'', ''get_installed_software'', ''get_system_uptime'',
        ''get_user_info'', ''get_system_paths'']"
  shows "system_info_run other a =
           ([], \<lparr>resp_text = (cross_mark @ '' System information operation failed: '')
                    @ (''Unknown action: '' @ template (arg_action a)),
                 resp_isError = True\<rparr>)"
proof -
  have "switch (map (\<lambda>label. (label, other ''system_info'' label))
       [''get_system_overview'', ''get_hardware_info'', ''get_os_info'',
        ''get_environment_vars'', ''get_installed_software'', ''get_system_uptime'',
        ''get_user_info'', ''get_system_paths'']) (unknown_action (arg_action a)) (arg_action a)
          = unknown_action (arg_action a)"
    using assms by (rule switch_default_map)
  then show ?thesis
    unfolding system_info_run_def by (simp only: unknown_response)
qed

lemma registry_run_unknown:
  assumes "arg_action a \<notin> Some ` set
       [''read_key'', ''read_value'', ''search_keys'', ''list_subkeys'',
        ''get_startup_programs'', ''get_installed_programs'', ''get_system_info_from_registry'']"
  shows "registry_run other a =
           ([], \<lparr>resp_text = (cross_mark @ '' Registry operation failed: '')
                    @ (''Unknown action: '' @ template (arg_action a)),
                 resp_isError = True\<rparr>)"
proof -
  have "switch (map (\<lambda>label. (label, other ''registry'' label))
       [''read_key'', ''read_value'', ''search_keys'', ''list_subkeys'',
        ''get_startup_programs'', ''get_installed_programs'', ''get_system_info_from_registry'']) (unknown_action (arg_action a)) (arg_action a)
          = unknown_action (arg_action a)"
    using assms by (rule switch_default_map)
  then show ?thesis
    unfolding registry_run_def by (simp only: unknown_response)
qed

lemma service_manager_run_unknown:
  assumes "arg_action a \<notin> Some ` set
       [''list_services'', ''get_service_details'', ''start_service'', ''stop_service'',
        ''restart_service'', ''get_service_status'', ''find_service'',
        ''get_running_services'', ''get_startup_services'']"
  shows "service_manager_run other a =
           ([], \<lparr>resp_text = (cross_mark @ '' Service management operation failed: '')
                    @ (''Unknown action: '' @ template (arg_action a)),
                 resp_isError = True\<rparr>)"
proof -
  have "switch (map (\<lambda>label. (label, other ''service_manager'' label))
       [''list_services'', ''get_service_details'', ''start_service'', ''stop_service'',
        ''restart_service'', ''get_service_status'', ''find_service'',
        ''get_running_services'', ''get_startup_services'']) (unknown_action (arg_action a)) (arg_action a)
          = unknown_action (arg_action a)"
    using assms by (rule switch_default_map)
  then show ?thesis
    unfolding service_manager_run_def by (simp only: unknown_response)
qed

lemma network_run_unknown:
  assumes "arg_action a \<notin> Some ` set
       [''get_network_adapters'', ''get_active_connections'', ''get_listening_ports'',
        ''get_routing_table'', ''ping_host'', ''trace_route'', ''get_dns_info'',
        ''get_network_statistics'', ''scan_open_ports'', ''get_wifi_profiles'']"
  shows "network_run env other a =
           ([], \<lparr>resp_text = (cross_mark @ '' Network operation failed: '')
                    @ (''Unknown action: '' @ template (arg_action a)),
                 resp_isError = True\<rparr>)"
proof -
  have "switch cases otherwise (arg_action a) = otherwise" if "map fst cases =
       [''get_network_adapters'', ''get_active_connections'', ''get_listening_ports'',
        ''get_routing_table'', ''ping_host'', ''trace_route'', ''get_dns_info'',
        ''get_network_statistics'', ''scan_open_ports'', ''get_wifi_profiles'']" for cases :: "(string \<times> outcome) list" and otherwise
    proof (rule switch_default)
      have e: "fst ` set cases = set (map fst cases)" by (simp only: set_map)
      show "arg_action a \<notin> Some ` fst ` set cases" unfolding e that using assms .
    qed
  then show ?thesis
    unfolding network_run_def by (simp add: unknown_response del: switch.simps)
qed

lemma performance_run_unknown:
  assumes "arg_action a \<notin> Some ` set
       [''get_cpu_usage'', ''get_memory_usage'', ''get_disk_usage'', ''get_disk_io'',
        ''get_network_io'', ''get_system_performance'', ''get_top_processes_by_cpu'',
        ''get_top_processes_by_memory'', ''get_performance_counters'', ''monitor_real_time'']"
  shows "performance_run other a =
           ([], \<lparr>resp_text = (perf_cross_mark @ '' Performance monitoring operation failed: '')
                    @ (''Unknown action: '' @ template (arg_action a)),
                 resp_isError = True\<rparr>)"
proof -
  have "switch (map (\<lambda>label. (label, other ''performance'' label))
       [''get_cpu_usage'', ''get_memory_usage'', ''get_disk_usage'', ''get_disk_io'',
        ''get_network_io'', ''get_system_performance'', ''get_top_processes_by_cpu'',
        ''get_top_processes_by_memory'', ''get_performance_counters'', ''monitor_real_time'']) (unknown_action (arg_action a)) (arg_action a)
          = unknown_action (arg_action a)"
    using assms by (rule switch_default_map)
  then show ?thesis
    unfolding performance_run_def by (simp only: unknown_response)
qed

lemma tool_actions_cases:
  assumes "tool_actions name = Some acts"
  obtains
    "name = ''filesystem''" and "acts =
       [''list_directory'', ''read_file'', ''search_files'', ''get_file_info'',
        ''find_large_files'', ''get_disk_usage'']"
  | "name = ''process_manager''" and "acts =
       [''list_processes'', ''get_process_details'', ''kill_process'', ''find_process'',
        ''get_top_processes'', ''get_process_tree'']"
  | "name = ''system_info''" and "acts =
       [''get_system_overview'', ''get_hardware_info'', ''get_os_info'',
        ''get_environment_vars'', ''get_installed_software'', ''get_system_uptime'',
        ''get_user_info'', ''get_system_paths'']"
  | "name = ''registry''" and "acts =
       [''read_key'', ''read_value'', ''search_keys'', ''list_subkeys'',
        ''get_startup_programs'', ''get_installed_programs'', ''get_system_info_from_registry'']"
  | "name = ''service_manager''" and "acts =
       [''list_services'', ''get_service_details'', ''start_service'', ''stop_service'',
        ''restart_service'', ''get_service_status'', ''find_service'',
        ''get_running_services'', ''get_startup_services'']"
  | "name = ''network''" and "acts =
       [''get_network_adapters'', ''get_active_connections'', ''get_listening_ports'',
        ''get_routing_table'', ''ping_host'', ''trace_route'', ''get_dns_info'',
        ''get_network_statistics'', ''scan_open_ports'', ''get_wifi_profiles'']"
  | "name = ''performance''" and "acts =
       [''get_cpu_usage'', ''get_memory_usage'', ''get_disk_usage'', ''get_disk_io'',
        ''get_network_io'', ''get_system_performance'', ''get_top_processes_by_cpu'',
        ''get_top_processes_by_memory'', ''get_performance_counters'', ''monitor_real_time'']"
  using assms unfolding tool_actions_def by (auto split: if_splits)

lemma call_tool_unknown_action:
  assumes "tool_actions name = Some acts" and "arg_action a \<notin> Some ` set acts"
  shows "\<exists>failure. call_tool fuel env other name (Some a) =
           Some ([], Inr \<lparr>resp_text = failure @ (''Unknown action: '' @ template (arg_action a)),
                     resp_isError = True\<rparr>)"
  using assms(1)
proof (cases rule: tool_actions_cases)
  case 1
  from assms(2) have "arg_action a \<notin> Some ` set acts" .
  then have "filesystem_run fuel env other a =
      Some ([], \<lparr>resp_text = (fs_cross_mark @ '' File system operation failed: '')
                    @ (''Unknown action: '' @ template (arg_action a)),
                 resp_isError = True\<rparr>)"
    unfolding 1(2) by (rule filesystem_run_unknown)
  with 1 show ?thesis
    by (intro exI[of _ "fs_cross_mark @ '' File system operation failed: ''"])
       (simp add: call_tool_def)
next
  case 2
  from assms(2) have "arg_action a \<notin> Some ` set acts" .
  then have "process_manager_run env other a =
      ([], \<lparr>resp_text = (cross_mark @ '' Process management operation failed: '')
               @ (''Unknown action: '' @ template (arg_action a)),
            resp_isError = True\<rparr>)"
    unfolding 2(2) by (rule process_manager_run_unknown)
  with 2 show ?thesis
    by (intro exI[of _ "cross_mark @ '' Process management operation failed: ''"])
       (simp add: call_tool_def)
next
  case 3
  from assms(2) have "arg_action a \<notin> Some ` set acts" .
  then have "system_info_run other a =
      ([], \<lparr>resp_text = (cross_mark @ '' System information operation failed: '')
               @ (''Unknown action: '' @ template (arg_action a)),
            resp_isError = True\<rparr>)"
    unfolding 3(2) by (rule system_info_run_unknown)
  with 3 show ?thesis
    by (intro exI[of _ "cross_mark @ '' System information operation failed: ''"])
       (simp add: call_tool_def)
next
  case 4
  from assms(2) have "arg_action a \<notin> Some ` set acts" .
  then have "registry_run other a =
      ([], \<lparr>resp_text = (cross_mark @ '' Registry operation failed: '')
               @ (''Unknown action: '' @ template (arg_action a)),
            resp_isError = True\<rparr>)"
    unfolding 4(2) by (rule registry_run_unknown)
  with 4 show ?thesis
    by (intro exI[of _ "cross_mark @ '' Registry operation failed: ''"])
       (simp add: call_tool_def)
next
  case 5
  from assms(2) have "arg_action a \<notin> Some ` set acts" .
  then have "service_manager_run other a =
      ([], \<lparr>resp_text = (cross_mark @ '' Service management operation failed: '')
               @ (''Unknown action: '' @ template (arg_action a)),
            resp_isError = True\<rparr>)"
    unfolding 5(2) by (rule service_manager_run_unknown)
  with 5 show ?thesis
    by (intro exI[of _ "cross_mark @ '' Service management operation failed: ''"])
       (simp add: call_tool_def)
next
  case 6
  from assms(2) have "arg_action a \<notin> Some ` set acts" .
  then have "network_run env other a =
      ([], \<lparr>resp_text = (cross_mark @ '' Network operation failed: '')
               @ (''Unknown action: '' @ template (arg_action a)),
            resp_isError = True\<rparr>)"
    unfolding 6(2) by (rule network_run_unknown)
  with 6 show ?thesis
    by (intro exI[of _ "cross_mark @ '' Network operation failed: ''"])
       (simp add: call_tool_def)
next
  case 7
  from assms(2) have "arg_action a \<notin> Some ` set acts" .
  then have "performance_run other a =
      ([], \<lparr>resp_text = (perf_cross_mark @ '' Performance monitoring operation failed: '')
               @ (''Unknown action: '' @ template (arg_action a)),
            resp_isError = True\<rparr>)"
    unfolding 7(2) by (rule performance_run_unknown)
  with 7 show ?thesis
    by (intro exI[of _ "perf_cross_mark @ '' Performance monitoring operation failed: ''"])
       (simp add: call_tool_def)
qed

lemma unknown_tool:
  assumes "tool_actions name = None"
  shows "call_tool fuel env other name arguments = Some ([], Inl (''Unknown tool: '' @ name))"
  using assms by (simp add: tool_actions_def call_tool_def Let_def split: if_splits)

text \<open>
  C5. A call that names a tool that is not registered fails with the error
  \<open>Unknown tool:\<close> followed by the name. A call that names a registered tool with an action
  outside the actions the tool enumerates, or with no action, returns an error response
  whose text ends with \<open>Unknown action:\<close> followed by the action (\<open>undefined\<close> for none).
  In each case no operation is performed: no external process is invoked.
\<close>

theorem unknown_tool_or_action:
  "(tool_actions name = None \<longrightarrow>
      call_tool fuel env other name arguments = Some ([], Inl (''Unknown tool: '' @ name)))
   \<and> (\<forall>acts a. tool_actions name = Some acts \<and> arg_action a \<notin> Some ` set acts \<longrightarrow>
        (\<exists>failure. call_tool fuel env other name (Some a) =
           Some ([], Inr \<lparr>resp_text = failure @ (''Unknown action: '' @ template (arg_action a)),
                     resp_isError = True\<rparr>)))
   \<and> (\<forall>acts. tool_actions name = Some acts \<longrightarrow>
        (\<exists>failure. call_tool fuel env other name None =
           Some ([], Inr \<lparr>resp_text = failure @ ''Unknown action: undefined'', resp_isError = True\<rparr>)))"
proof (intro conjI allI impI)
  assume "tool_actions name = None"
  then show "call_tool fuel env other name arguments = Some ([], Inl (''Unknown tool: '' @ name))"
    by (rule unknown_tool)
next
  fix acts and a :: args
  assume "tool_actions name = Some acts \<and> arg_action a \<notin> Some ` set acts"
  then show "\<exists>failure. call_tool fuel env other name (Some a) =
           Some ([], Inr \<lparr>resp_text = failure @ (''Unknown action: '' @ template (arg_action a)),
                     resp_isError = True\<rparr>)"
    using call_tool_unknown_action by blast
next
  fix acts
  assume t: "tool_actions name = Some acts"
  have "arg_action no_args \<notin> Some ` set acts" by (simp add: no_args_def)
  from call_tool_unknown_action[OF t this, of fuel env other]
  obtain failure where "call_tool fuel env other name (Some no_args) =
           Some ([], Inr \<lparr>resp_text = failure @ (''Unknown action: '' @ template (arg_action no_args)),
                     resp_isError = True\<rparr>)"
    by blast
  moreover have "call_tool fuel env other name None = call_tool fuel env other name (Some no_args)"
    by (simp add: call_tool_def)
  moreover have "template (arg_action no_args) = ''undefined''"
    by (simp add: no_args_def template_def)
  ultimately show "\<exists>failure. call_tool fuel env other name None =
           Some ([], Inr \<lparr>resp_text = failure @ ''Unknown action: undefined'', resp_isError = True\<rparr>)"
    by (intro exI[of _ failure]) simp
qed

theorem unknown_tool_or_action_witness:
  "tool_actions ''shell'' = None
   \<and> call_tool 0 demo_env no_other ''shell'' None = Some ([], Inl ''Unknown tool: shell'')
   \<and> tool_actions ''filesystem'' =
       Some [''list_directory'', ''read_file'', ''search_files'', ''get_file_info'',
             ''find_large_files'', ''get_disk_usage'']
   \<and> arg_action (request ''delete_file'') = Some ''delete_file''
   \<and> map_option fst (call_tool 0 demo_env no_other ''filesystem'' (Some (request ''delete_file'')))
     = Some []
   \<and> (case map_option snd (call_tool 0 demo_env no_other ''filesystem'' (Some (request ''delete_file''))) of
        Some (Inr r) \<Rightarrow> resp_isError r \<and> suffix ''Unknown action: delete_file'' (resp_text r)
      | _ \<Rightarrow> False)"
proof -
  let ?acts = "[''list_directory'', ''read_file'', ''search_files'', ''get_file_info'',
                ''find_large_files'', ''get_disk_usage'']"
  have n: "tool_actions ''shell'' = None" by (simp add: tool_actions_def)
  have f: "tool_actions ''filesystem'' = Some ?acts" by (simp add: tool_actions_def)
  have a: "arg_action (request ''delete_file'') = Some ''delete_file''"
    by (simp add: request_def no_args_def)
  have o: "arg_action (request ''delete_file'') \<notin> Some ` set ?acts"
    by (simp add: a)
  have t: "template (arg_action (request ''delete_file'')) = ''delete_file''"
    by (simp add: a template_def)
  from unknown_tool_or_action[of "''shell''" 0 demo_env no_other None] n
  have 1: "call_tool 0 demo_env no_other ''shell'' None = Some ([], Inl ''Unknown tool: shell'')"
    by simp
  from unknown_tool_or_action[of "''filesystem''" 0 demo_env no_other None] f o
  obtain failure where c: "call_tool 0 demo_env no_other ''filesystem'' (Some (request ''delete_file'')) =
      Some ([], Inr \<lparr>resp_text = failure @ (''Unknown action: '' @ template (arg_action (request ''delete_file''))),
                      resp_isError = True\<rparr>)"
    by blast
  have 2: "map_option fst (call_tool 0 demo_env no_other ''filesystem'' (Some (request ''delete_file'')))
     = Some []"
    by (simp add: c)
  have 3: "(case map_option snd (call_tool 0 demo_env no_other ''filesystem'' (Some (request ''delete_file''))) of
        Some (Inr r) \<Rightarrow> resp_isError r \<and> suffix ''Unknown action: delete_file'' (resp_text r)
      | _ \<Rightarrow> False)"
    unfolding c t by (simp add: suffix_def)
  from n 1 f a 2 3 show ?thesis by (intro conjI)
qed

end
